theory Spec2Isabelle
  imports Main
begin

section \<open>Towers of Hanoi: game state, move engine and solver\<close>

text \<open>
  A shallow embedding of \<^verbatim>\<open>src/js/gameState.js\<close>, \<^verbatim>\<open>src/js/gameEngine.js\<close> and the
  solver of \<^verbatim>\<open>src/js/solverEngine.js\<close>. The JavaScript mutates one game state object
  in place; here every operation takes the state and returns its result together
  with the state as the call leaves it. \<^verbatim>\<open>new Date()\<close> is an explicit argument
  \<open>now\<close>, read by every \<^verbatim>\<open>new Date()\<close> of one call. A thrown exception is a value of
  the result type.
\<close>

subsection \<open>Values\<close>

text \<open>Milliseconds since the epoch, as \<^verbatim>\<open>Date\<close> arithmetic sees them.\<close>

type_synonym time = int

text \<open>
  An argument as a JavaScript caller can pass it: an integer number, \<^verbatim>\<open>undefined\<close>
  (also an omitted argument), or anything else (a fraction, \<^verbatim>\<open>NaN\<close>, a string,
  \<^verbatim>\<open>null\<close>, ...). \<^verbatim>\<open>Number.isInteger\<close> holds of the first kind only.
\<close>

datatype jsval = JSInt int | JSUndefined | JSOther

fun isInteger :: "jsval \<Rightarrow> bool" where
  "isInteger (JSInt i) = True"
| "isInteger JSUndefined = False"
| "isInteger JSOther = False"

text \<open>The number an integer argument is; the code reads it only where
  \<^verbatim>\<open>Number.isInteger\<close> has held.\<close>

fun num :: "jsval \<Rightarrow> int" where
  "num (JSInt i) = i"
| "num JSUndefined = 0"
| "num JSOther = 0"

text \<open>The \<^verbatim>\<open>type\<close> field of an error object (\<^verbatim>\<open>MoveError\<close> and the string literals
  of the engine). Message, details and timestamp of the error object are not modelled.\<close>

datatype error_type =
    INVALID_SOURCE_ROD
  | INVALID_TARGET_ROD
  | EMPTY_SOURCE_ROD
  | LARGER_ON_SMALLER
  | SAME_ROD
  | GAME_COMPLETE
  | INVALID_GAME_STATE
  | NO_MOVES_TO_UNDO
  | CANNOT_UNDO_COMPLETE_GAME
  | INVALID_ROD_INDEX
  | EMPTY_ROD_SELECTION
  | NO_DISK_SELECTED

text \<open>
  What a call does: it returns a failure object (\<^verbatim>\<open>success: false\<close>), returns a
  success object, or throws. \<open>Pushed_Undefined\<close> is the one outcome whose state the
  model cannot hold: \<^verbatim>\<open>undoLastMove\<close> popped an empty rod and pushed the resulting
  \<^verbatim>\<open>undefined\<close> onto a rod (it reports success).
\<close>

datatype 'a result = Failure error_type | Success 'a | Exception | Pushed_Undefined

fun is_Failure :: "'a result \<Rightarrow> bool" where
  "is_Failure (Failure e) = True"
| "is_Failure (Success x) = False"
| "is_Failure Exception = False"
| "is_Failure Pushed_Undefined = False"

fun is_Success :: "'a result \<Rightarrow> bool" where
  "is_Success (Failure e) = False"
| "is_Success (Success x) = True"
| "is_Success Exception = False"
| "is_Success Pushed_Undefined = False"

subsection \<open>The data model (gameState.js)\<close>

record move =
  fromRod :: int
  toRod :: int
  diskId :: int
  moveNumber :: int
  timestamp :: time

record game_settings =
  numDisks :: int
  animationSpeed :: int
  showHints :: bool
  autoSolveSpeed :: int

record game_metadata =
  gameStartTime :: time
  lastMoveTime :: "time option"
  optimalMoves :: int
  gameEndTime :: "time option"
  totalGameTime :: "int option"

text \<open>
  \<open>rods\<close> is the array of rods, each rod its \<^verbatim>\<open>disks\<close> array, bottom disk first
  (\<^verbatim>\<open>push\<close> and \<^verbatim>\<open>pop\<close> work at the end of the list). A rod's \<^verbatim>\<open>id\<close> is its
  position in the array and is not stored. \<^verbatim>\<open>null\<close> is \<open>None\<close>.
\<close>

record game_state =
  rods :: "int list list"
  selectedDisk :: "int option"
  selectedRod :: "int option"
  moveCount :: int
  gameComplete :: bool
  moveHistory :: "move list"
  settings :: game_settings
  metadata :: game_metadata

text \<open>\<^verbatim>\<open>createMove\<close>: \<open>None\<close> when it throws.\<close>

definition createMove :: "time \<Rightarrow> jsval \<Rightarrow> jsval \<Rightarrow> int \<Rightarrow> int \<Rightarrow> move option" where
  "createMove now f t disk n =
     (if \<not> isInteger f \<or> num f < 0 \<or> num f > 2 then None
      else if \<not> isInteger t \<or> num t < 0 \<or> num t > 2 then None
      else if f = t then None
      else if disk < 1 then None
      else if n < 1 then None
      else Some \<lparr>fromRod = num f, toRod = num t, diskId = disk, moveNumber = n,
                  timestamp = now\<rparr>)"

text \<open>\<^verbatim>\<open>Math.pow(b, e)\<close> on an integer base and a non-negative integer exponent; the
  doubles are exact as long as the power is below \<open>2^53\<close>.\<close>

definition Math_pow :: "int \<Rightarrow> int \<Rightarrow> int" where
  "Math_pow b e = b ^ nat e"

text \<open>The loop \<^verbatim>\<open>for (let i = numDisks; i >= 1; i--) initialDisks.push(i)\<close>.\<close>

fun initialDisks :: "nat \<Rightarrow> int list" where
  "initialDisks 0 = []"
| "initialDisks (Suc k) = int (Suc k) # initialDisks k"

text \<open>\<^verbatim>\<open>createGameState(numDisks = 3)\<close>: the default value stands in for
  \<^verbatim>\<open>undefined\<close>; \<open>Inl\<close> is the message of the \<^verbatim>\<open>Error\<close> thrown.\<close>

definition createGameState :: "time \<Rightarrow> jsval \<Rightarrow> string + game_state" where
  "createGameState now arg =
     (let numDisks = (if arg = JSUndefined then JSInt 3 else arg) in
      if \<not> isInteger numDisks \<or> num numDisks < 3 \<or> num numDisks > 8
      then Inl ''Number of disks must be an integer between 3 and 8''
      else Inr \<lparr>rods = [initialDisks (nat (num numDisks)), [], []],
                selectedDisk = None,
                selectedRod = None,
                moveCount = 0,
                gameComplete = False,
                moveHistory = [],
                settings = \<lparr>numDisks = num numDisks, animationSpeed = 300,
                             showHints = True, autoSolveSpeed = 500\<rparr>,
                metadata = \<lparr>gameStartTime = now, lastMoveTime = None,
                             optimalMoves = Math_pow 2 (num numDisks) - 1,
                             gameEndTime = None, totalGameTime = None\<rparr>\<rparr>)"

text \<open>The ordering loop of \<^verbatim>\<open>validateGameState\<close>: it throws when
  \<^verbatim>\<open>disks[j] >= disks[j-1]\<close> for some \<open>j \<ge> 1\<close>.\<close>

fun descending :: "int list \<Rightarrow> bool" where
  "descending [] = True"
| "descending [x] = True"
| "descending (x # y # ys) = (\<not> y \<ge> x \<and> descending (y # ys))"

text \<open>\<^verbatim>\<open>validateGameState\<close>: \<open>True\<close> when it returns, \<open>False\<close> when it throws (every
  caller here only distinguishes the two). The property checks of the object's
  shape are what the record type says.\<close>

definition validateGameState :: "game_state \<Rightarrow> bool" where
  "validateGameState gs =
     (if length (rods gs) \<noteq> 3 then False
      else if \<not> list_all descending (rods gs) then False
      else let allDisks = concat (rods gs); n = numDisks (settings gs) in
        if int (length allDisks) \<noteq> n then False
        else if int (length (remdups allDisks)) \<noteq> n then False
        else if \<not> list_all (\<lambda>i. i \<in> set allDisks) [1..n] then False
        else if n < 3 \<or> n > 8 then False
        else if animationSpeed (settings gs) < 100 then False
        else if moveCount gs < 0 then False
        else if int (length (moveHistory gs)) \<noteq> moveCount gs then False
        else True)"

text \<open>\<^verbatim>\<open>isGameWon\<close>: \<open>None\<close> when there is no rod 2 to read (a \<^verbatim>\<open>TypeError\<close>).\<close>

definition isGameWon :: "game_state \<Rightarrow> bool option" where
  "isGameWon gs =
     (if length (rods gs) < 3 then None
      else let rightRod = rods gs ! 2; n = numDisks (settings gs) in
        if int (length rightRod) \<noteq> n then Some False
        else Some (list_all (\<lambda>i. rightRod ! i = n - int i) [0..<nat n]))"

subsection \<open>Move validation (gameEngine.js)\<close>

datatype validation = Valid | Invalid error_type

definition validateMove :: "game_state \<Rightarrow> jsval \<Rightarrow> jsval \<Rightarrow> validation" where
  "validateMove gs f t =
     (if \<not> validateGameState gs then Invalid INVALID_GAME_STATE
      else if gameComplete gs then Invalid GAME_COMPLETE
      else if \<not> isInteger f \<or> num f < 0 \<or> num f > 2 then Invalid INVALID_SOURCE_ROD
      else if \<not> isInteger t \<or> num t < 0 \<or> num t > 2 then Invalid INVALID_TARGET_ROD
      else if f = t then Invalid SAME_ROD
      else let sourceRod = rods gs ! nat (num f); targetRod = rods gs ! nat (num t) in
        if length sourceRod = 0 then Invalid EMPTY_SOURCE_ROD
        else let diskToMove = last sourceRod in
          if length targetRod > 0 \<and> diskToMove \<ge> last targetRod
          then Invalid LARGER_ON_SMALLER
          else Valid)"

text \<open>\<^verbatim>\<open>getMoveInfo\<close>, its \<^verbatim>\<open>diskToMove\<close> field (\<^verbatim>\<open>null\<close> for an invalid move).\<close>

definition getMoveInfo :: "game_state \<Rightarrow> jsval \<Rightarrow> jsval \<Rightarrow> int option" where
  "getMoveInfo gs f t =
     (case validateMove gs f t of
        Invalid e \<Rightarrow> None
      | Valid \<Rightarrow> Some (last (rods gs ! nat (num f))))"

definition getValidDestinations :: "game_state \<Rightarrow> int \<Rightarrow> int list" where
  "getValidDestinations gs f =
     filter (\<lambda>t. f \<noteq> t \<and> validateMove gs (JSInt f) (JSInt t) = Valid) [0, 1, 2]"

subsection \<open>Move execution and undo (gameEngine.js)\<close>

record move_done =
  move_record :: move
  diskMoved :: int
  nowComplete :: bool

definition makeMove :: "time \<Rightarrow> game_state \<Rightarrow> jsval \<Rightarrow> jsval \<Rightarrow> move_done result \<times> game_state" where
  "makeMove now gs f t =
     (case validateMove gs f t of
        Invalid e \<Rightarrow> (Failure e, gs)
      | Valid \<Rightarrow>
         (case getMoveInfo gs f t of
            None \<Rightarrow> (Exception, gs)
          | Some diskToMove \<Rightarrow>
             (case createMove now f t diskToMove (moveCount gs + 1) of
                None \<Rightarrow> (Exception, gs)
              | Some m \<Rightarrow>
                 let i = nat (num f); j = nat (num t);
                     movedDisk = last (rods gs ! i);
                     rods1 = (rods gs)[i := butlast (rods gs ! i)];
                     rods2 = rods1[j := rods1 ! j @ [movedDisk]];
                     gs1 = gs\<lparr>rods := rods2,
                              moveCount := moveCount gs + 1,
                              moveHistory := moveHistory gs @ [m],
                              metadata := (metadata gs)\<lparr>lastMoveTime := Some now\<rparr>,
                              selectedDisk := None,
                              selectedRod := None\<rparr>
                 in (case isGameWon gs1 of
                       None \<Rightarrow> (Exception, gs1)
                     | Some isWon \<Rightarrow>
                        let gs2 = (if isWon \<and> \<not> gameComplete gs1
                                   then gs1\<lparr>gameComplete := True,
                                            metadata := (metadata gs1)
                                              \<lparr>gameEndTime := Some now,
                                               totalGameTime :=
                                                 Some (now - gameStartTime (metadata gs1))\<rparr>\<rparr>
                                   else gs1)
                        in (Success \<lparr>move_record = m, diskMoved = diskToMove,
                                     nowComplete = gameComplete gs2\<rparr>, gs2)))))"

record move_undone =
  undoneMove :: move
  diskReturned :: int

text \<open>
  \<^verbatim>\<open>undoLastMove\<close>. After the two guards the history is popped first, so reading a
  rod the state does not have throws with the history already popped. \<^verbatim>\<open>pop()\<close> on an
  empty rod yields \<^verbatim>\<open>undefined\<close> and leaves the rod empty; the code pushes that
  \<^verbatim>\<open>undefined\<close> and goes on to report success: the result is \<open>Pushed_Undefined\<close>, and
  the state returned with it is the state the code leaves but for the pushed element.
\<close>

definition undoLastMove :: "game_state \<Rightarrow> move_undone result \<times> game_state" where
  "undoLastMove gs =
     (if length (moveHistory gs) = 0 then (Failure NO_MOVES_TO_UNDO, gs)
      else if gameComplete gs then (Failure CANNOT_UNDO_COMPLETE_GAME, gs)
      else let lastMove = last (moveHistory gs);
               gs1 = gs\<lparr>moveHistory := butlast (moveHistory gs)\<rparr> in
        if toRod lastMove < 0 \<or> int (length (rods gs1)) \<le> toRod lastMove
        then (Exception, gs1)
        else let j = nat (toRod lastMove);
                 popped = (if rods gs1 ! j = [] then None else Some (last (rods gs1 ! j)));
                 rods1 = (rods gs1)[j := butlast (rods gs1 ! j)] in
          if fromRod lastMove < 0 \<or> int (length rods1) \<le> fromRod lastMove
          then (Exception, gs1\<lparr>rods := rods1\<rparr>)
          else let i = nat (fromRod lastMove);
                   rods2 = (case popped of
                              None \<Rightarrow> rods1
                            | Some diskToMove \<Rightarrow> rods1[i := rods1 ! i @ [diskToMove]]);
                   hist = moveHistory gs1;
                   gs2 = gs1\<lparr>rods := rods2,
                            moveCount := moveCount gs1 - 1,
                            metadata := (metadata gs1)
                              \<lparr>lastMoveTime :=
                                 (if length hist > 0 then Some (timestamp (last hist))
                                  else None)\<rparr>,
                            selectedDisk := None,
                            selectedRod := None\<rparr>
               in (case popped of
                     None \<Rightarrow> (Pushed_Undefined, gs2)
                   | Some diskToMove \<Rightarrow>
                       (Success \<lparr>undoneMove = lastMove, diskReturned = diskToMove\<rparr>, gs2)))"

subsection \<open>Selection (gameEngine.js)\<close>

record disk_selected =
  topDisk :: int
  onRod :: int
  validDestinations :: "int list"

definition selectDisk :: "game_state \<Rightarrow> jsval \<Rightarrow> disk_selected result \<times> game_state" where
  "selectDisk gs rodIndex =
     (if \<not> isInteger rodIndex \<or> num rodIndex < 0 \<or> num rodIndex > 2
      then (Failure INVALID_ROD_INDEX, gs)
      else if length (rods gs) \<le> nat (num rodIndex) then (Exception, gs)
      else let rod = rods gs ! nat (num rodIndex) in
        if length rod = 0 then (Failure EMPTY_ROD_SELECTION, gs)
        else let top = last rod;
                 gs1 = gs\<lparr>selectedDisk := Some top, selectedRod := Some (num rodIndex)\<rparr>
             in (Success \<lparr>topDisk = top, onRod = num rodIndex,
                          validDestinations = getValidDestinations gs1 (num rodIndex)\<rparr>,
                 gs1))"

text \<open>\<^verbatim>\<open>clearSelection\<close> always succeeds and reports the previous selection.\<close>

definition clearSelection :: "game_state \<Rightarrow> (int option \<times> int option) result \<times> game_state" where
  "clearSelection gs =
     (Success (selectedDisk gs, selectedRod gs),
      gs\<lparr>selectedDisk := None, selectedRod := None\<rparr>)"

definition moveSelectedDisk :: "time \<Rightarrow> game_state \<Rightarrow> jsval \<Rightarrow> move_done result \<times> game_state" where
  "moveSelectedDisk now gs targetRod =
     (if selectedDisk gs = None \<or> selectedRod gs = None
      then (Failure NO_DISK_SELECTED, gs)
      else makeMove now gs (JSInt (the (selectedRod gs))) targetRod)"

subsection \<open>The solver (solverEngine.js)\<close>

text \<open>A move of the solution: \<^verbatim>\<open>{from, to, disk}\<close>.\<close>

record solver_move =
  move_from :: int
  move_to :: int
  move_disk :: int

text \<open>
  \<^verbatim>\<open>diskPositions\<close> is a JavaScript array made by \<^verbatim>\<open>new Array(numDisks)\<close>: index
  \<open>d - 1\<close> holds the rod of disk \<open>d\<close>, \<open>None\<close> is a hole. Writing past the end
  extends the array; writing at a negative index touches no element. Reading
  outside the array gives \<^verbatim>\<open>undefined\<close>, which equals no rod.
\<close>

definition array_set :: "int option list \<Rightarrow> int \<Rightarrow> int \<Rightarrow> int option list" where
  "array_set xs i v =
     (if i < 0 then xs
      else if nat i < length xs then xs[nat i := Some v]
      else xs @ replicate (nat i - length xs) None @ [Some v])"

definition array_get :: "int option list \<Rightarrow> int \<Rightarrow> int option" where
  "array_get xs i = (if 0 \<le> i \<and> nat i < length xs then xs ! nat i else None)"

text \<open>\<^verbatim>\<open>getCurrentDiskPositions\<close>: \<open>None\<close> when \<^verbatim>\<open>new Array\<close> throws on a negative
  length or one of the rods 0, 1, 2 is missing.\<close>

definition getCurrentDiskPositions :: "game_state \<Rightarrow> int option list option" where
  "getCurrentDiskPositions gs =
     (let n = numDisks (settings gs) in
      if n < 0 \<or> length (rods gs) < 3 then None
      else Some (fold (\<lambda>rodIndex positions.
                     fold (\<lambda>diskSize ps. array_set ps (diskSize - 1) rodIndex)
                          (rods gs ! nat rodIndex) positions)
                   [0, 1, 2] (replicate (nat n) None)))"

text \<open>\<^verbatim>\<open>diskPositions.every(pos => pos === 2)\<close>; \<^verbatim>\<open>every\<close> skips holes.\<close>

definition isGameComplete :: "int option list \<Rightarrow> bool" where
  "isGameComplete diskPositions = list_all (\<lambda>pos. pos = None \<or> pos = Some 2) diskPositions"

text \<open>The loop of \<^verbatim>\<open>findDiskAtPosition\<close>, from \<open>diskSize\<close> down to 1.\<close>

fun findDiskFrom :: "nat \<Rightarrow> int \<Rightarrow> int option list \<Rightarrow> int option" where
  "findDiskFrom 0 rodIndex diskPositions = None"
| "findDiskFrom (Suc k) rodIndex diskPositions =
     (if array_get diskPositions (int (Suc k) - 1) = Some rodIndex then Some (int (Suc k))
      else findDiskFrom k rodIndex diskPositions)"

text \<open>\<^verbatim>\<open>findDiskAtPosition(size, rodIndex, diskPositions)\<close>: the loop starts at
  \<^verbatim>\<open>this.gameState.settings.numDisks\<close> and never reads its first argument \<^verbatim>\<open>size\<close>.\<close>

definition findDiskAtPosition :: "int \<Rightarrow> int \<Rightarrow> int \<Rightarrow> int option list \<Rightarrow> int option" where
  "findDiskAtPosition nDisks sz rodIndex diskPositions =
     findDiskFrom (nat nDisks) rodIndex diskPositions"

text \<open>The block that \<^verbatim>\<open>solveTowersOfHanoi\<close> runs in its base case and between its
  two recursive calls: find the disk, and if there is one on \<open>source\<close>, push the
  move and update \<open>diskPositions\<close>.\<close>

definition recordMove ::
  "int \<Rightarrow> int \<Rightarrow> int \<Rightarrow> int \<Rightarrow> solver_move list \<times> int option list
     \<Rightarrow> solver_move list \<times> int option list" where
  "recordMove nDisks n source target st =
     (case findDiskAtPosition nDisks n source (snd st) of
        None \<Rightarrow> st
      | Some diskSize \<Rightarrow>
          if diskSize \<noteq> 0 \<and> array_get (snd st) (diskSize - 1) = Some source
          then (fst st @ [\<lparr>move_from = source, move_to = target, move_disk = diskSize\<rparr>],
                array_set (snd st) (diskSize - 1) target)
          else st)"

text \<open>
  \<^verbatim>\<open>solveTowersOfHanoi(n, source, target, auxiliary, solution, diskPositions)\<close>; the
  pair is \<open>(solution, diskPositions)\<close>. With \<open>n = 0\<close> the JavaScript never meets
  \<^verbatim>\<open>n === 1\<close> and recurses until the call stack is exhausted (a \<^verbatim>\<open>RangeError\<close>):
  \<open>None\<close>.
\<close>

fun solveTowersOfHanoi ::
  "int \<Rightarrow> nat \<Rightarrow> int \<Rightarrow> int \<Rightarrow> int \<Rightarrow> solver_move list \<times> int option list
     \<Rightarrow> (solver_move list \<times> int option list) option" where
  "solveTowersOfHanoi nDisks 0 source target auxiliary st = None"
| "solveTowersOfHanoi nDisks (Suc 0) source target auxiliary st =
     Some (recordMove nDisks 1 source target st)"
| "solveTowersOfHanoi nDisks (Suc (Suc k)) source target auxiliary st =
     (case solveTowersOfHanoi nDisks (Suc k) source auxiliary target st of
        None \<Rightarrow> None
      | Some st1 \<Rightarrow>
          solveTowersOfHanoi nDisks (Suc k) auxiliary target source
            (recordMove nDisks (int (Suc (Suc k))) source target st1))"

text \<open>\<^verbatim>\<open>generateOptimalSolution\<close>: \<open>None\<close> when it throws.\<close>

definition generateOptimalSolution :: "game_state \<Rightarrow> solver_move list option" where
  "generateOptimalSolution gs =
     (case getCurrentDiskPositions gs of
        None \<Rightarrow> None
      | Some diskPositions \<Rightarrow>
          if isGameComplete diskPositions then Some []
          else map_option fst
                 (solveTowersOfHanoi (numDisks (settings gs)) (nat (numDisks (settings gs)))
                    0 2 1 ([], diskPositions)))"

text \<open>\<^verbatim>\<open>calculateMinimumMoves\<close>.\<close>

definition calculateMinimumMoves :: "int \<Rightarrow> int" where
  "calculateMinimumMoves n = Math_pow 2 n - 1"

text \<open>
  Replaying a solution the way \<^verbatim>\<open>executeNextMove\<close> steps through it: each move goes
  through \<^verbatim>\<open>makeMove\<close> (which validates it), at the time the clock shows for that
  step; the first move that is not a success stops the replay.
\<close>

datatype replay_outcome =
    Replayed game_state
  | Stopped nat "move_done result" game_state

fun replay :: "(nat \<Rightarrow> time) \<Rightarrow> nat \<Rightarrow> game_state \<Rightarrow> solver_move list \<Rightarrow> replay_outcome" where
  "replay clock k gs [] = Replayed gs"
| "replay clock k gs (m # ms) =
     (case makeMove (clock k) gs (JSInt (move_from m)) (JSInt (move_to m)) of
        (Success r, gs') \<Rightarrow> replay clock (Suc k) gs' ms
      | (Failure e, gs') \<Rightarrow> Stopped k (Failure e) gs'
      | (Exception, gs') \<Rightarrow> Stopped k Exception gs'
      | (Pushed_Undefined, gs') \<Rightarrow> Stopped k Pushed_Undefined gs')"

section \<open>Specification, examples and proof notions\<close>

subsection \<open>Notions used to state the claims\<close>

text \<open>
  A rod argument is ``an integer in \<open>{0, 1, 2}\<close>''.
\<close>

definition is_rod :: "jsval \<Rightarrow> bool" where
  "is_rod v = (v = JSInt 0 \<or> v = JSInt 1 \<or> v = JSInt 2)"

text \<open>
  The validator's rules in the order the specification lists them, each with the reason
  it reports and the condition under which it fails.
\<close>

definition spec_rules :: "(error_type \<times> (game_state \<Rightarrow> jsval \<Rightarrow> jsval \<Rightarrow> bool)) list" where
  "spec_rules =
     [(GAME_COMPLETE, \<lambda>gs f t. gameComplete gs),
      (INVALID_SOURCE_ROD, \<lambda>gs f t. \<not> is_rod f),
      (INVALID_TARGET_ROD, \<lambda>gs f t. \<not> is_rod t),
      (SAME_ROD, \<lambda>gs f t. f = t),
      (EMPTY_SOURCE_ROD, \<lambda>gs f t. rods gs ! nat (num f) = []),
      (LARGER_ON_SMALLER, \<lambda>gs f t. rods gs ! nat (num t) \<noteq> [] \<and>
          last (rods gs ! nat (num t)) \<le> last (rods gs ! nat (num f)))]"

text \<open>
  ``The first failing rule determines the reported reason''; with no failing rule the
  move is accepted.
\<close>

definition spec_validate :: "game_state \<Rightarrow> jsval \<Rightarrow> jsval \<Rightarrow> validation" where
  "spec_validate gs f t =
     (case find (\<lambda>rule. snd rule gs f t) spec_rules of
        None \<Rightarrow> Valid
      | Some rule \<Rightarrow> Invalid (fst rule))"

text \<open>
  A valid initial state for \<open>n\<close> disks: all of them on rod 0 in descending
  order, the other rods empty, no move made, nothing selected, not complete.
\<close>

definition initial_state :: "int \<Rightarrow> game_state \<Rightarrow> bool" where
  "initial_state n gs \<longleftrightarrow>
     rods gs = [rev [1..n], [], []] \<and> moveCount gs = 0 \<and> moveHistory gs = [] \<and>
     \<not> gameComplete gs \<and> selectedDisk gs = None \<and> selectedRod gs = None \<and>
     numDisks (settings gs) = n"

text \<open>
  The states reachable from \<^verbatim>\<open>createGameState(n)\<close> by calls of
  \<^verbatim>\<open>makeMove\<close>, \<^verbatim>\<open>undoLastMove\<close>,
  \<^verbatim>\<open>selectDisk\<close> and \<^verbatim>\<open>clearSelection\<close>,
  with any arguments and whatever the call returns
  (\<^verbatim>\<open>moveSelectedDisk\<close> is a guarded call of
  \<^verbatim>\<open>makeMove\<close>).
\<close>

inductive reachable :: "int \<Rightarrow> game_state \<Rightarrow> bool" for n :: int where
  created: "createGameState now (JSInt n) = Inr gs \<Longrightarrow> reachable n gs"
| made_move: "reachable n gs \<Longrightarrow> reachable n (snd (makeMove now gs f t))"
| undone: "reachable n gs \<Longrightarrow> reachable n (snd (undoLastMove gs))"
| selected: "reachable n gs \<Longrightarrow> reachable n (snd (selectDisk gs r))"
| cleared: "reachable n gs \<Longrightarrow> reachable n (snd (clearSelection gs))"

subsection \<open>Game states used as examples\<close>

text \<open>
  A fresh game of three disks, created at time 0.
\<close>

definition fresh3 :: game_state where
  "fresh3 =
     \<lparr>rods = [[3, 2, 1], [], []], selectedDisk = None, selectedRod = None, moveCount = 0,
      gameComplete = False, moveHistory = [],
      settings = \<lparr>numDisks = 3, animationSpeed = 300, showHints = True, autoSolveSpeed = 500\<rparr>,
      metadata = \<lparr>gameStartTime = 0, lastMoveTime = None, optimalMoves = 7,
                   gameEndTime = None, totalGameTime = None\<rparr>\<rparr>"

text \<open>
  The state \<^verbatim>\<open>createGameState(n)\<close> returns at time
  \<open>now\<close>, written out.
\<close>

definition fresh_state :: "time \<Rightarrow> int \<Rightarrow> game_state" where
  "fresh_state now n =
     \<lparr>rods = [rev [1..n], [], []], selectedDisk = None, selectedRod = None, moveCount = 0,
      gameComplete = False, moveHistory = [],
      settings = \<lparr>numDisks = n, animationSpeed = 300, showHints = True, autoSolveSpeed = 500\<rparr>,
      metadata = \<lparr>gameStartTime = now, lastMoveTime = None, optimalMoves = 2 ^ nat n - 1,
                   gameEndTime = None, totalGameTime = None\<rparr>\<rparr>"

text \<open>
  The three-disk game one move before completion, after the first six moves of the
  textbook solution.
\<close>

definition before_win :: game_state where
  "before_win =
     \<lparr>rods = [[1], [], [3, 2]], selectedDisk = None, selectedRod = None, moveCount = 6,
      gameComplete = False,
      moveHistory =
        [\<lparr>fromRod = 0, toRod = 2, diskId = 1, moveNumber = 1, timestamp = 1\<rparr>,
         \<lparr>fromRod = 0, toRod = 1, diskId = 2, moveNumber = 2, timestamp = 2\<rparr>,
         \<lparr>fromRod = 2, toRod = 1, diskId = 1, moveNumber = 3, timestamp = 3\<rparr>,
         \<lparr>fromRod = 0, toRod = 2, diskId = 3, moveNumber = 4, timestamp = 4\<rparr>,
         \<lparr>fromRod = 1, toRod = 0, diskId = 1, moveNumber = 5, timestamp = 5\<rparr>,
         \<lparr>fromRod = 1, toRod = 2, diskId = 2, moveNumber = 6, timestamp = 6\<rparr>],
      settings = \<lparr>numDisks = 3, animationSpeed = 300, showHints = True, autoSolveSpeed = 500\<rparr>,
      metadata = \<lparr>gameStartTime = 0, lastMoveTime = Some 6, optimalMoves = 7,
                   gameEndTime = None, totalGameTime = None\<rparr>\<rparr>"

text \<open>
  The three-disk game after the single move of disk 1 from rod 0 to rod 1: disks 3 and 2
  on rod 0, disk 1 on rod 1.
\<close>

definition one_moved :: game_state where
  "one_moved =
     \<lparr>rods = [[3, 2], [1], []], selectedDisk = None, selectedRod = None, moveCount = 1,
      gameComplete = False,
      moveHistory = [\<lparr>fromRod = 0, toRod = 1, diskId = 1, moveNumber = 1, timestamp = 1\<rparr>],
      settings = \<lparr>numDisks = 3, animationSpeed = 300, showHints = True, autoSolveSpeed = 500\<rparr>,
      metadata = \<lparr>gameStartTime = 0, lastMoveTime = Some 1, optimalMoves = 7,
                   gameEndTime = None, totalGameTime = None\<rparr>\<rparr>"

text \<open>
  The move list the solver produces for \<open>one_moved\<close>.
\<close>

definition midgame_solution :: "solver_move list" where
  "midgame_solution =
     [\<lparr>move_from = 0, move_to = 2, move_disk = 3\<rparr>, \<lparr>move_from = 0, move_to = 1, move_disk = 2\<rparr>,
      \<lparr>move_from = 2, move_to = 1, move_disk = 3\<rparr>, \<lparr>move_from = 1, move_to = 0, move_disk = 3\<rparr>,
      \<lparr>move_from = 1, move_to = 2, move_disk = 2\<rparr>, \<lparr>move_from = 0, move_to = 2, move_disk = 3\<rparr>]"

text \<open>
  The completed three-disk game: \<open>before_win\<close> after its last move.
\<close>

definition won3 :: game_state where
  "won3 = snd (makeMove 7 before_win (JSInt 0) (JSInt 2))"

subsection \<open>Notions used in the proofs\<close>

text \<open>
  Pop the top disk of rod \<open>i\<close> and push it onto rod \<open>j\<close>: the
  two array statements that \<^verbatim>\<open>makeMove\<close> and
  \<^verbatim>\<open>undoLastMove\<close> both run.
\<close>

definition move_top :: "int list list \<Rightarrow> nat \<Rightarrow> nat \<Rightarrow> int list list" where
  "move_top rs i j =
     (let rs1 = rs[i := butlast (rs ! i)] in rs1[j := rs1 ! j @ [last (rs ! i)]])"

text \<open>
  Three rods, each descending, holding the disks \<open>1..n\<close> once each.
\<close>

definition rods_ok :: "int \<Rightarrow> int list list \<Rightarrow> bool" where
  "rods_ok n rs \<longleftrightarrow>
     length rs = 3 \<and> list_all descending rs \<and> distinct (concat rs) \<and> set (concat rs) = {1..n}"

text \<open>
  The rules of \<^verbatim>\<open>validateMove\<close> that read the rods.
\<close>

definition legal :: "int list list \<Rightarrow> int \<Rightarrow> int \<Rightarrow> bool" where
  "legal rs i j \<longleftrightarrow>
     0 \<le> i \<and> i \<le> 2 \<and> 0 \<le> j \<and> j \<le> 2 \<and> i \<noteq> j \<and> rs ! nat i \<noteq> [] \<and>
     (rs ! nat j = [] \<or> last (rs ! nat i) < last (rs ! nat j))"

text \<open>
  The last \<^verbatim>\<open>Move\<close> record of the history is one
  \<^verbatim>\<open>createMove\<close> builds (two different rods among 0, 1, 2), the
  state has its three rods, and the record's disk is the top disk of the record's target
  rod.
\<close>

definition record_on_top :: "game_state \<Rightarrow> bool" where
  "record_on_top gs \<longleftrightarrow>
     (let m = last (moveHistory gs) in
        length (rods gs) = 3 \<and>
        0 \<le> fromRod m \<and> fromRod m \<le> 2 \<and> 0 \<le> toRod m \<and> toRod m \<le> 2 \<and>
        fromRod m \<noteq> toRod m \<and>
        rods gs ! nat (toRod m) \<noteq> [] \<and> last (rods gs ! nat (toRod m)) = diskId m)"

text \<open>
  The history, latest record first, can be undone record by record: each record's disk
  lies on top of its target rod, and taking it back gives well-formed rods that are not
  the solved position.
\<close>

fun history_ok :: "int \<Rightarrow> int list list \<Rightarrow> move list \<Rightarrow> bool" where
  "history_ok n rs [] = True"
| "history_ok n rs (m # ms) =
     (0 \<le> fromRod m \<and> fromRod m \<le> 2 \<and> 0 \<le> toRod m \<and> toRod m \<le> 2 \<and>
      fromRod m \<noteq> toRod m \<and>
      rs ! nat (toRod m) \<noteq> [] \<and> last (rs ! nat (toRod m)) = diskId m \<and>
      rods_ok n (move_top rs (nat (toRod m)) (nat (fromRod m))) \<and>
      move_top rs (nat (toRod m)) (nat (fromRod m)) ! 2 \<noteq> rev [1..n] \<and>
      history_ok n (move_top rs (nat (toRod m)) (nat (fromRod m))) ms)"

text \<open>
  The invariant of the reachable states.
\<close>

definition state_inv :: "int \<Rightarrow> game_state \<Rightarrow> bool" where
  "state_inv n gs \<longleftrightarrow>
     3 \<le> n \<and> n \<le> 8 \<and> numDisks (settings gs) = n \<and> rods_ok n (rods gs) \<and>
     (gameComplete gs \<longleftrightarrow> rods gs ! 2 = rev [1..n]) \<and>
     history_ok n (rods gs) (rev (moveHistory gs))"

text \<open>
  Playing a move list on the bare rods, as \<^verbatim>\<open>makeMove\<close> would: it
  refuses to move from the solved position (the game is complete there) and to make an
  illegal move.
\<close>

fun play :: "int \<Rightarrow> int list list \<Rightarrow> solver_move list \<Rightarrow> int list list option" where
  "play n rs [] = Some rs"
| "play n rs (m # ms) =
     (if rs ! 2 = rev [1..n] then None
      else if legal rs (move_from m) (move_to m)
      then play n (move_top rs (nat (move_from m)) (nat (move_to m))) ms
      else None)"

text \<open>
  Where a replay stopped and with which result, and the state it ended in.
\<close>

fun stopped_at :: "replay_outcome \<Rightarrow> (nat \<times> move_done result) option" where
  "stopped_at (Replayed gs) = None"
| "stopped_at (Stopped k r gs) = Some (k, r)"

fun final_state :: "replay_outcome \<Rightarrow> game_state" where
  "final_state (Replayed gs) = gs"
| "final_state (Stopped k r gs) = gs"

section \<open>Facts about the model\<close>

lemma createMove_of_valid:
  "validateMove gs f t = Valid \<Longrightarrow> 0 \<le> c \<Longrightarrow> 1 \<le> d \<Longrightarrow>
   createMove now f t d (c + 1)
     = Some \<lparr>fromRod = num f, toRod = num t, diskId = d, moveNumber = c + 1, timestamp = now\<rparr>"
  by (auto simp: validateMove_def createMove_def Let_def split: if_splits)

lemma initialDisks_3: "initialDisks 3 = [3, 2, 1]"
  by (simp add: numeral_3_eq_3)

lemma createGameState_3: "createGameState 0 (JSInt 3) = Inr fresh3"
  by (simp add: createGameState_def fresh3_def Math_pow_def initialDisks_3)

lemma validateGameState_fresh3: "validateGameState fresh3"
  by (simp add: validateGameState_def fresh3_def upto.simps)

lemma is_rod_iff: "is_rod v \<longleftrightarrow> isInteger v \<and> 0 \<le> num v \<and> num v \<le> 2"
  by (cases v) (auto simp: is_rod_def)

lemma lt3: "(i::nat) < 3 \<longleftrightarrow> i = 0 \<or> i = 1 \<or> i = 2"
  by auto

lemma length3E:
  assumes "length rs = 3"
  obtains a b c where "rs = [a, b, c]"
  using assms by (auto simp: numeral_3_eq_3 length_Suc_conv)

lemma descending_snoc:
  "descending (xs @ [d]) \<longleftrightarrow> descending xs \<and> (xs = [] \<or> d < last xs)"
  by (induction xs rule: descending.induct) auto

lemma descending_iff_sorted_wrt: "descending xs \<longleftrightarrow> sorted_wrt (>) xs"
proof -
  have "descending xs \<longleftrightarrow> successively (>) xs"
    by (induction xs rule: descending.induct) auto
  also have "\<dots> \<longleftrightarrow> sorted_wrt (>) xs"
    by (rule successively_conv_sorted_wrt) (auto simp: transp_def)
  finally show ?thesis .
qed

lemma initialDisks_eq: "initialDisks k = rev [1..int k]"
proof (induction k)
  case 0
  show ?case by simp
next
  case (Suc k)
  have "[1..int (Suc k)] = [1..int k] @ [int (Suc k)]"
    using upto_rec2 [of 1 "int (Suc k)"] by simp
  with Suc show ?case by simp
qed

lemma nth_rev_upto:
  assumes "i < nat n"
  shows "rev [1..n] ! i = n - int i"
proof -
  have len: "length [1..n] = nat n"
    by simp
  have "rev [1..n] ! i = [1..n] ! (nat n - Suc i)"
    using assms rev_nth [of i "[1..n]"] by (simp only: len)
  also have "\<dots> = 1 + int (nat n - Suc i)"
  proof (rule nth_upto)
    show "1 + int (nat n - Suc i) \<le> n" using assms by linarith
  qed
  also have "\<dots> = n - int i"
    using assms by simp
  finally show ?thesis .
qed

lemma won_iff:
  assumes "int (length xs) = n"
  shows "list_all (\<lambda>i. xs ! i = n - int i) [0..<nat n] \<longleftrightarrow> xs = rev [1..n]"
proof
  assume a: "list_all (\<lambda>i. xs ! i = n - int i) [0..<nat n]"
  show "xs = rev [1..n]"
  proof (rule nth_equalityI)
    show "length xs = length (rev [1..n])" using assms by simp
  next
    fix i assume "i < length xs"
    then have "i < nat n" using assms by simp
    then show "xs ! i = rev [1..n] ! i"
      using a by (simp add: list_all_iff nth_rev_upto)
  qed
next
  assume "xs = rev [1..n]"
  then show "list_all (\<lambda>i. xs ! i = n - int i) [0..<nat n]"
    by (simp add: list_all_iff nth_rev_upto)
qed

lemma isGameWon_eq:
  "length (rods gs) = 3 \<Longrightarrow> 0 \<le> numDisks (settings gs) \<Longrightarrow>
   isGameWon gs = Some (rods gs ! 2 = rev [1..numDisks (settings gs)])"
  using won_iff [of "rods gs ! 2" "numDisks (settings gs)"]
  by (auto simp: isGameWon_def Let_def)

lemma validateGameState_rods_ok:
  assumes "validateGameState gs"
  shows "rods_ok (numDisks (settings gs)) (rods gs)"
proof -
  let ?all = "concat (rods gs)" and ?n = "numDisks (settings gs)"
  from assms have len: "length (rods gs) = 3" and desc: "list_all descending (rods gs)"
    and l1: "int (length ?all) = ?n" and l2: "int (length (remdups ?all)) = ?n"
    and sub: "list_all (\<lambda>i. i \<in> set ?all) [1..?n]"
    by (auto simp: validateGameState_def Let_def split: if_splits)
  from l1 l2 have "int (length (remdups ?all)) = int (length ?all)" by (simp only:)
  then have "length (remdups ?all) = length ?all" by (simp only: of_nat_eq_iff)
  then have d: "distinct ?all" by simp
  from sub have s: "{1..?n} \<subseteq> set ?all" by (auto simp: list_all_iff)
  have "card (set ?all) = length ?all" using d by (rule distinct_card)
  also have "\<dots> = nat ?n" using l1 by simp
  also have "\<dots> = card {1..?n}" by simp
  finally have "card (set ?all) = card {1..?n}" .
  with s have "set ?all = {1..?n}"
    by (metis card_subset_eq List.finite_set)
  with len desc d show ?thesis by (simp add: rods_ok_def)
qed

lemma rods_ok_move_top:
  assumes "rods_ok n rs" "i < 3" "j < 3" "i \<noteq> j" "rs ! i \<noteq> []"
    "rs ! j = [] \<or> last (rs ! i) < last (rs ! j)"
  shows "rods_ok n (move_top rs i j)"
proof -
  from assms(1) have "length rs = 3" by (simp add: rods_ok_def)
  then obtain a b c where rs: "rs = [a, b, c]" by (rule length3E)
  from assms(5) obtain xs d where src: "rs ! i = xs @ [d]"
    by (cases "rs ! i" rule: rev_cases) auto
  from assms(2,3,4) consider "i = 0 \<and> j = 1" | "i = 0 \<and> j = 2" | "i = 1 \<and> j = 0"
    | "i = 1 \<and> j = 2" | "i = 2 \<and> j = 0" | "i = 2 \<and> j = 1"
    by (auto simp: lt3)
  then show ?thesis
    using assms(1,6) src rs
    by cases (auto simp: rods_ok_def move_top_def descending_snoc)
qed

lemma move_top_inverse:
  assumes "length rs = 3" "i < 3" "j < 3" "i \<noteq> j" "rs ! i \<noteq> []"
  shows "move_top (move_top rs i j) j i = rs"
proof -
  from assms(1) obtain a b c where rs: "rs = [a, b, c]" by (rule length3E)
  from assms(2,3,4) consider "i = 0 \<and> j = 1" | "i = 0 \<and> j = 2" | "i = 1 \<and> j = 0"
    | "i = 1 \<and> j = 2" | "i = 2 \<and> j = 0" | "i = 2 \<and> j = 1"
    by (auto simp: lt3)
  then show ?thesis
    using assms(5) rs
    by cases (auto simp: move_top_def)
qed

lemma validateMove_Valid_iff:
  "validateMove gs f t = Valid \<longleftrightarrow>
     validateGameState gs \<and> \<not> gameComplete gs \<and> isInteger f \<and> isInteger t \<and>
     legal (rods gs) (num f) (num t)"
  by (cases f; cases t) (auto simp: validateMove_def legal_def Let_def)

lemma rods_ok_ge1:
  assumes "rods_ok n rs" "i < 3" "rs ! i \<noteq> []"
  shows "1 \<le> last (rs ! i)"
proof -
  from assms(1) have len: "length rs = 3" and s: "set (concat rs) = {1..n}"
    by (simp_all add: rods_ok_def)
  have "last (rs ! i) \<in> set (rs ! i)" using assms(3) by simp
  moreover have "rs ! i \<in> set rs" using len assms(2) by simp
  ultimately have "last (rs ! i) \<in> set (concat rs)" by auto
  with s show ?thesis by simp
qed

lemma makeMove_Valid:
  fixes now :: time and gs :: game_state and f t :: jsval
  assumes v: "validateMove gs f t = Valid"
  defines "gs' \<equiv> snd (makeMove now gs f t)"
  defines "m \<equiv> \<lparr>fromRod = num f, toRod = num t, diskId = last (rods gs ! nat (num f)),
                  moveNumber = moveCount gs + 1, timestamp = now\<rparr>"
  shows "fst (makeMove now gs f t)
           = Success \<lparr>move_record = m, diskMoved = last (rods gs ! nat (num f)),
                       nowComplete = gameComplete gs'\<rparr>"
    and "rods gs' = move_top (rods gs) (nat (num f)) (nat (num t))"
    and "moveHistory gs' = moveHistory gs @ [m]"
    and "moveCount gs' = moveCount gs + 1"
    and "gameComplete gs' \<longleftrightarrow> rods gs' ! 2 = rev [1..numDisks (settings gs)]"
    and "settings gs' = settings gs"
    and "selectedDisk gs' = None" and "selectedRod gs' = None"
proof -
  let ?i = "nat (num f)" and ?j = "nat (num t)" and ?n = "numDisks (settings gs)"
  from v have val: "validateGameState gs" and nc: "\<not> gameComplete gs"
    and leg: "legal (rods gs) (num f) (num t)"
    by (simp_all add: validateMove_Valid_iff)
  from val have ok: "rods_ok ?n (rods gs)" by (rule validateGameState_rods_ok)
  then have len: "length (rods gs) = 3" by (simp add: rods_ok_def)
  from val have n0: "0 \<le> ?n" and mc: "0 \<le> moveCount gs"
    by (auto simp: validateGameState_def Let_def split: if_splits)
  from leg have ij: "?i < 3" "?j < 3" "?i \<noteq> ?j" and ne: "rods gs ! ?i \<noteq> []"
    by (auto simp: legal_def)
  have d1: "1 \<le> last (rods gs ! ?i)" using ok ij(1) ne by (rule rods_ok_ge1)
  have info: "getMoveInfo gs f t = Some (last (rods gs ! ?i))"
    by (simp add: getMoveInfo_def v)
  have cm: "createMove now f t (last (rods gs ! ?i)) (moveCount gs + 1) = Some m"
    unfolding m_def by (rule createMove_of_valid [OF v mc d1])
  let ?gs1 = "gs\<lparr>rods := move_top (rods gs) ?i ?j,
                  moveCount := moveCount gs + 1,
                  moveHistory := moveHistory gs @ [m],
                  metadata := (metadata gs)\<lparr>lastMoveTime := Some now\<rparr>,
                  selectedDisk := None,
                  selectedRod := None\<rparr>"
  have len1: "length (rods ?gs1) = 3" using len by (simp add: move_top_def Let_def)
  have won: "isGameWon ?gs1 = Some (rods ?gs1 ! 2 = rev [1..?n])"
    using isGameWon_eq [OF len1] n0 by simp
  have eq: "makeMove now gs f t =
      (let gs2 = (if rods ?gs1 ! 2 = rev [1..?n]
                  then ?gs1\<lparr>gameComplete := True,
                            metadata := (metadata ?gs1)
                              \<lparr>gameEndTime := Some now,
                               totalGameTime := Some (now - gameStartTime (metadata ?gs1))\<rparr>\<rparr>
                  else ?gs1)
       in (Success \<lparr>move_record = m, diskMoved = last (rods gs ! ?i),
                    nowComplete = gameComplete gs2\<rparr>, gs2))"
    using won nc by (simp add: makeMove_def v info cm move_top_def Let_def)
  show "fst (makeMove now gs f t)
           = Success \<lparr>move_record = m, diskMoved = last (rods gs ! nat (num f)),
                       nowComplete = gameComplete gs'\<rparr>"
    unfolding gs'_def eq by (simp add: Let_def)
  show "rods gs' = move_top (rods gs) ?i ?j"
    unfolding gs'_def eq by (simp add: Let_def)
  show "moveHistory gs' = moveHistory gs @ [m]"
    unfolding gs'_def eq by (simp add: Let_def)
  show "moveCount gs' = moveCount gs + 1"
    unfolding gs'_def eq by (simp add: Let_def)
  show "gameComplete gs' \<longleftrightarrow> rods gs' ! 2 = rev [1..?n]"
    unfolding gs'_def eq using nc by (simp add: Let_def)
  show "settings gs' = settings gs"
    unfolding gs'_def eq by (simp add: Let_def)
  show "selectedDisk gs' = None" "selectedRod gs' = None"
    unfolding gs'_def eq by (simp_all add: Let_def)
qed

lemma makeMove_Success_iff:
  "is_Success (fst (makeMove now gs f t)) \<longleftrightarrow> validateMove gs f t = Valid"
proof (cases "validateMove gs f t")
  case Valid
  then show ?thesis using makeMove_Valid(1) [OF Valid, of now] by simp
next
  case (Invalid e)
  then show ?thesis by (simp add: makeMove_def)
qed

lemma undoLastMove_ok:
  fixes gs :: game_state
  defines "m \<equiv> last (moveHistory gs)"
  assumes "moveHistory gs \<noteq> []" "\<not> gameComplete gs"
    and "0 \<le> toRod m" "toRod m < int (length (rods gs))"
    and "0 \<le> fromRod m" "fromRod m < int (length (rods gs))"
    and "rods gs ! nat (toRod m) \<noteq> []"
  shows "undoLastMove gs =
    (Success \<lparr>undoneMove = m, diskReturned = last (rods gs ! nat (toRod m))\<rparr>,
     gs\<lparr>moveHistory := butlast (moveHistory gs),
        rods := move_top (rods gs) (nat (toRod m)) (nat (fromRod m)),
        moveCount := moveCount gs - 1,
        metadata := (metadata gs)
          \<lparr>lastMoveTime := (if butlast (moveHistory gs) \<noteq> []
                             then Some (timestamp (last (butlast (moveHistory gs))))
                             else None)\<rparr>,
        selectedDisk := None,
        selectedRod := None\<rparr>)"
  using assms(2-) unfolding m_def
  by (simp add: undoLastMove_def Let_def move_top_def not_le)

lemma move_top_rods:
  assumes "length rs = 3" "i < 3" "j < 3" "i \<noteq> j" "rs ! i \<noteq> []"
  shows "move_top rs i j ! i = butlast (rs ! i)"
    and "move_top rs i j ! j = rs ! j @ [last (rs ! i)]"
    and "\<And>k. k \<noteq> i \<Longrightarrow> k \<noteq> j \<Longrightarrow> move_top rs i j ! k = rs ! k"
    and "length (move_top rs i j) = 3"
  using assms by (auto simp: move_top_def Let_def)

lemma createGameState_eq:
  "createGameState now (JSInt n) =
     (if 3 \<le> n \<and> n \<le> 8 then Inr (fresh_state now n)
      else Inl ''Number of disks must be an integer between 3 and 8'')"
  by (auto simp: createGameState_def fresh_state_def Math_pow_def initialDisks_eq)

lemma rods_ok_fresh: "rods_ok n [rev [1..n], [], []]"
proof -
  have "sorted_wrt (<) [1..n]" by (simp add: strict_sorted_iff)
  then have "descending (rev [1..n])"
    by (simp add: descending_iff_sorted_wrt sorted_wrt_rev)
  then show ?thesis by (simp add: rods_ok_def)
qed

lemma rods_ok_length:
  assumes "rods_ok n rs" "0 \<le> n"
  shows "int (length (concat rs)) = n"
proof -
  from assms(1) have "distinct (concat rs)" "set (concat rs) = {1..n}"
    by (simp_all add: rods_ok_def)
  then have "length (concat rs) = card {1..n}" by (metis distinct_card)
  then show ?thesis using assms(2) by simp
qed

lemma validateGameState_iff:
  "validateGameState gs \<longleftrightarrow>
     rods_ok (numDisks (settings gs)) (rods gs) \<and>
     3 \<le> numDisks (settings gs) \<and> numDisks (settings gs) \<le> 8 \<and>
     100 \<le> animationSpeed (settings gs) \<and> 0 \<le> moveCount gs \<and>
     int (length (moveHistory gs)) = moveCount gs"
    (is "?L \<longleftrightarrow> ?R")
proof
  assume l: ?L
  then have "rods_ok (numDisks (settings gs)) (rods gs)" by (rule validateGameState_rods_ok)
  with l show ?R by (auto simp: validateGameState_def Let_def split: if_splits)
next
  assume r: ?R
  then have ok: "rods_ok (numDisks (settings gs)) (rods gs)" and n0: "0 \<le> numDisks (settings gs)"
    by simp_all
  from ok have d: "distinct (concat (rods gs))" by (simp add: rods_ok_def)
  have "int (length (concat (rods gs))) = numDisks (settings gs)"
    using ok n0 by (rule rods_ok_length)
  moreover have rd: "remdups (concat (rods gs)) = concat (rods gs)"
    using d by (rule distinct_remdups_id)
  ultimately show ?L using r ok
    by (auto simp: validateGameState_def Let_def rods_ok_def list_all_iff rd)
qed

lemma validateGameState_fresh: "3 \<le> n \<Longrightarrow> n \<le> 8 \<Longrightarrow> validateGameState (fresh_state now n)"
  using rods_ok_fresh [of n] by (simp add: validateGameState_iff fresh_state_def)

lemma createGameState_cases:
  "(arg = JSUndefined \<longrightarrow>
      (\<exists>gs. createGameState now arg = Inr gs \<and> initial_state 3 gs \<and> validateGameState gs)) \<and>
   (\<forall>n. arg = JSInt n \<and> 3 \<le> n \<and> n \<le> 8 \<longrightarrow>
      (\<exists>gs. createGameState now arg = Inr gs \<and> initial_state n gs \<and> validateGameState gs)) \<and>
   (arg \<noteq> JSUndefined \<and> \<not> (\<exists>n. arg = JSInt n \<and> 3 \<le> n \<and> n \<le> 8) \<longrightarrow>
      (\<exists>e. createGameState now arg = Inl e))"
proof (intro conjI impI allI)
  assume "arg = JSUndefined"
  then have "createGameState now arg = Inr (fresh_state now 3)"
    using createGameState_eq [of now 3] by (simp add: createGameState_def)
  moreover have "initial_state 3 (fresh_state now 3)"
    by (simp add: initial_state_def fresh_state_def)
  moreover have "validateGameState (fresh_state now 3)"
    by (rule validateGameState_fresh) simp_all
  ultimately show "\<exists>gs. createGameState now arg = Inr gs \<and> initial_state 3 gs \<and> validateGameState gs"
    by blast
next
  fix n assume a: "arg = JSInt n \<and> 3 \<le> n \<and> n \<le> 8"
  then have "createGameState now arg = Inr (fresh_state now n)"
    by (simp add: createGameState_eq)
  moreover have "initial_state n (fresh_state now n)"
    by (simp add: initial_state_def fresh_state_def)
  moreover have "validateGameState (fresh_state now n)"
    using a by (simp add: validateGameState_fresh)
  ultimately show "\<exists>gs. createGameState now arg = Inr gs \<and> initial_state n gs \<and> validateGameState gs"
    by blast
next
  assume a: "arg \<noteq> JSUndefined \<and> \<not> (\<exists>n. arg = JSInt n \<and> 3 \<le> n \<and> n \<le> 8)"
  then show "\<exists>e. createGameState now arg = Inl e"
    by (cases arg) (auto simp: createGameState_def)
qed

lemma one_moved_eq: "snd (makeMove 1 fresh3 (JSInt 0) (JSInt 1)) = one_moved"
  by code_simp

lemma undoLastMove_cases:
  "(moveHistory gs = [] \<longrightarrow> undoLastMove gs = (Failure NO_MOVES_TO_UNDO, gs)) \<and>
   (moveHistory gs \<noteq> [] \<and> gameComplete gs \<longrightarrow>
      undoLastMove gs = (Failure CANNOT_UNDO_COMPLETE_GAME, gs)) \<and>
   (moveHistory gs \<noteq> [] \<and> \<not> gameComplete gs \<and> record_on_top gs \<longrightarrow>
      (let m = last (moveHistory gs); i = nat (fromRod m); j = nat (toRod m); d = diskId m in
       \<exists>u gs'. undoLastMove gs = (Success u, gs') \<and>
         undoneMove u = m \<and> diskReturned u = d \<and>
         moveHistory gs' = butlast (moveHistory gs) \<and>
         rods gs ! j = rods gs' ! j @ [d] \<and>
         rods gs' ! i = rods gs ! i @ [d] \<and>
         (\<forall>k<3. k \<noteq> i \<and> k \<noteq> j \<longrightarrow> rods gs' ! k = rods gs ! k) \<and>
         length (rods gs') = 3 \<and>
         moveCount gs' = moveCount gs - 1 \<and>
         selectedDisk gs' = None \<and> selectedRod gs' = None))"
proof (intro conjI impI)
  show "undoLastMove gs = (Failure NO_MOVES_TO_UNDO, gs)" if "moveHistory gs = []"
    using that by (simp add: undoLastMove_def)
  show "undoLastMove gs = (Failure CANNOT_UNDO_COMPLETE_GAME, gs)"
    if "moveHistory gs \<noteq> [] \<and> gameComplete gs"
    using that by (simp add: undoLastMove_def)
next
  assume a: "moveHistory gs \<noteq> [] \<and> \<not> gameComplete gs \<and> record_on_top gs"
  define m where "m = last (moveHistory gs)"
  from a have len: "length (rods gs) = 3"
    and r: "0 \<le> fromRod m" "fromRod m \<le> 2" "0 \<le> toRod m" "toRod m \<le> 2" "fromRod m \<noteq> toRod m"
    and ne: "rods gs ! nat (toRod m) \<noteq> []" and top: "last (rods gs ! nat (toRod m)) = diskId m"
    by (simp_all add: record_on_top_def Let_def m_def)
  from r have ij: "nat (toRod m) < 3" "nat (fromRod m) < 3" "nat (toRod m) \<noteq> nat (fromRod m)"
    by auto
  note mt = move_top_rods [OF len ij ne]
  have u: "undoLastMove gs =
    (Success \<lparr>undoneMove = m, diskReturned = last (rods gs ! nat (toRod m))\<rparr>,
     gs\<lparr>moveHistory := butlast (moveHistory gs),
        rods := move_top (rods gs) (nat (toRod m)) (nat (fromRod m)),
        moveCount := moveCount gs - 1,
        metadata := (metadata gs)
          \<lparr>lastMoveTime := (if butlast (moveHistory gs) \<noteq> []
                             then Some (timestamp (last (butlast (moveHistory gs))))
                             else None)\<rparr>,
        selectedDisk := None,
        selectedRod := None\<rparr>)"
    unfolding m_def using a r ne len
    by (intro undoLastMove_ok) (simp_all add: m_def)
  have tgt: "rods gs ! nat (toRod m) = butlast (rods gs ! nat (toRod m)) @ [diskId m]"
    using ne top by (metis append_butlast_last_id)
  show "let m = last (moveHistory gs); i = nat (fromRod m); j = nat (toRod m); d = diskId m in
       \<exists>u gs'. undoLastMove gs = (Success u, gs') \<and>
         undoneMove u = m \<and> diskReturned u = d \<and>
         moveHistory gs' = butlast (moveHistory gs) \<and>
         rods gs ! j = rods gs' ! j @ [d] \<and>
         rods gs' ! i = rods gs ! i @ [d] \<and>
         (\<forall>k<3. k \<noteq> i \<and> k \<noteq> j \<longrightarrow> rods gs' ! k = rods gs ! k) \<and>
         length (rods gs') = 3 \<and>
         moveCount gs' = moveCount gs - 1 \<and>
         selectedDisk gs' = None \<and> selectedRod gs' = None"
    unfolding Let_def m_def [symmetric] u
    using mt top tgt by simp
qed

lemma state_inv_created:
  assumes "createGameState now (JSInt n) = Inr gs"
  shows "state_inv n gs"
proof -
  from assms have n: "3 \<le> n" "n \<le> 8" and gs: "gs = fresh_state now n"
    by (auto simp: createGameState_eq split: if_splits)
  have "rev [1..n] \<noteq> []" using n by (simp add: upto.simps)
  then show ?thesis
    using n rods_ok_fresh [of n] by (simp add: state_inv_def gs fresh_state_def)
qed

lemma state_inv_makeMove:
  assumes inv: "state_inv n gs"
  shows "state_inv n (snd (makeMove now gs f t))"
proof (cases "validateMove gs f t")
  case (Invalid e)
  then show ?thesis using inv by (simp add: makeMove_def)
next
  case Valid
  let ?i = "nat (num f)" and ?j = "nat (num t)"
  note mm = makeMove_Valid [OF Valid, of now]
  from inv have n: "3 \<le> n" "n \<le> 8" "numDisks (settings gs) = n" and ok: "rods_ok n (rods gs)"
    and fl: "gameComplete gs \<longleftrightarrow> rods gs ! 2 = rev [1..n]"
    and h: "history_ok n (rods gs) (rev (moveHistory gs))"
    by (simp_all add: state_inv_def)
  from Valid have nc: "\<not> gameComplete gs" and leg: "legal (rods gs) (num f) (num t)"
    by (simp_all add: validateMove_Valid_iff)
  from ok have len: "length (rods gs) = 3" by (simp add: rods_ok_def)
  from leg have ij: "?i < 3" "?j < 3" "?i \<noteq> ?j" and ne: "rods gs ! ?i \<noteq> []"
    and tgt: "rods gs ! ?j = [] \<or> last (rods gs ! ?i) < last (rods gs ! ?j)"
    and rng: "0 \<le> num f" "num f \<le> 2" "0 \<le> num t" "num t \<le> 2" "num f \<noteq> num t"
    by (auto simp: legal_def)
  have ok': "rods_ok n (move_top (rods gs) ?i ?j)"
    using ok ij ne tgt by (rule rods_ok_move_top)
  have inv': "move_top (move_top (rods gs) ?i ?j) ?j ?i = rods gs"
    using len ij ne by (rule move_top_inverse)
  note mt = move_top_rods [OF len ij ne]
  have "history_ok n (move_top (rods gs) ?i ?j)
          (\<lparr>fromRod = num f, toRod = num t, diskId = last (rods gs ! ?i),
            moveNumber = moveCount gs + 1, timestamp = now\<rparr> # rev (moveHistory gs))"
    using rng mt(2) inv' ok h nc fl by simp
  then show ?thesis
    using n ok' by (simp add: state_inv_def mm)
qed

lemma state_inv_undo:
  assumes inv: "state_inv n gs"
  shows "state_inv n (snd (undoLastMove gs))"
proof -
  consider "moveHistory gs = []" | "moveHistory gs \<noteq> []" "gameComplete gs"
    | "moveHistory gs \<noteq> []" "\<not> gameComplete gs"
    by blast
  then show ?thesis
  proof cases
    case 1
    then show ?thesis using inv by (simp add: undoLastMove_def)
  next
    case 2
    then show ?thesis using inv by (simp add: undoLastMove_def)
  next
    case 3
    define m where "m = last (moveHistory gs)"
    from 3(1) have hist: "rev (moveHistory gs) = m # rev (butlast (moveHistory gs))"
      unfolding m_def by (cases "moveHistory gs" rule: rev_cases) simp_all
    from inv have n: "3 \<le> n" "n \<le> 8" "numDisks (settings gs) = n" and ok: "rods_ok n (rods gs)"
      and h: "history_ok n (rods gs) (rev (moveHistory gs))"
      by (simp_all add: state_inv_def)
    from ok have len: "length (rods gs) = 3" by (simp add: rods_ok_def)
    from h have r: "0 \<le> fromRod m" "fromRod m \<le> 2" "0 \<le> toRod m" "toRod m \<le> 2"
      and ne: "rods gs ! nat (toRod m) \<noteq> []"
      and prev: "rods_ok n (move_top (rods gs) (nat (toRod m)) (nat (fromRod m)))"
        "move_top (rods gs) (nat (toRod m)) (nat (fromRod m)) ! 2 \<noteq> rev [1..n]"
        "history_ok n (move_top (rods gs) (nat (toRod m)) (nat (fromRod m)))
           (rev (butlast (moveHistory gs)))"
      unfolding hist by simp_all
    have u: "undoLastMove gs =
      (Success \<lparr>undoneMove = m, diskReturned = last (rods gs ! nat (toRod m))\<rparr>,
       gs\<lparr>moveHistory := butlast (moveHistory gs),
          rods := move_top (rods gs) (nat (toRod m)) (nat (fromRod m)),
          moveCount := moveCount gs - 1,
          metadata := (metadata gs)
            \<lparr>lastMoveTime := (if butlast (moveHistory gs) \<noteq> []
                               then Some (timestamp (last (butlast (moveHistory gs))))
                               else None)\<rparr>,
          selectedDisk := None,
          selectedRod := None\<rparr>)"
      unfolding m_def using 3 r ne len
      by (intro undoLastMove_ok) (simp_all add: m_def)
    show ?thesis
      unfolding u using n prev 3(2) by (simp add: state_inv_def)
  qed
qed

lemma state_inv_select: "state_inv n gs \<Longrightarrow> state_inv n (snd (selectDisk gs r))"
  by (simp add: selectDisk_def state_inv_def Let_def)

lemma state_inv_clear: "state_inv n gs \<Longrightarrow> state_inv n (snd (clearSelection gs))"
  by (simp add: clearSelection_def state_inv_def)

lemma reachable_state_inv: "reachable n gs \<Longrightarrow> state_inv n gs"
  by (induction rule: reachable.induct)
    (simp_all add: state_inv_created state_inv_makeMove state_inv_undo state_inv_select
      state_inv_clear)

lemma reachable_record_on_top:
  assumes "reachable n gs" "moveHistory gs \<noteq> []"
  shows "record_on_top gs"
proof -
  from assms(1) have inv: "state_inv n gs" by (rule reachable_state_inv)
  from assms(2) have hist: "rev (moveHistory gs) = last (moveHistory gs) # rev (butlast (moveHistory gs))"
    by (cases "moveHistory gs" rule: rev_cases) simp_all
  from inv have "history_ok n (rods gs) (rev (moveHistory gs))" and "length (rods gs) = 3"
    by (simp_all add: state_inv_def rods_ok_def)
  then show ?thesis
    unfolding hist by (simp add: record_on_top_def Let_def)
qed

lemma full_rod_others_empty:
  fixes a b c :: "'a list"
  assumes d: "distinct (a @ b @ c)" and s: "set a \<union> set b \<union> set c = S" and c: "set c = S"
  shows "a = [] \<and> b = []"
proof -
  from d have da: "set a \<inter> set c = {}" and db: "set b \<inter> set c = {}"
    by (simp_all only: distinct_append set_append) blast+
  from s c have sa: "set a \<subseteq> set c" by blast
  from s c have sb: "set b \<subseteq> set c" by blast
  from sa have "set a \<inter> set c = set a" by (rule Int_absorb2)
  with da have 1: "set a = {}" by (simp only:)
  from sb have "set b \<inter> set c = set b" by (rule Int_absorb2)
  with db have 2: "set b = {}" by (simp only:)
  from 1 2 show ?thesis by simp
qed

lemma validateGameState_makeMove:
  assumes v: "validateMove gs f t = Valid"
  shows "validateGameState (snd (makeMove now gs f t))"
proof -
  let ?i = "nat (num f)" and ?j = "nat (num t)" and ?n = "numDisks (settings gs)"
  note mm = makeMove_Valid [OF v, of now]
  from v have val: "validateGameState gs" and leg: "legal (rods gs) (num f) (num t)"
    by (simp_all add: validateMove_Valid_iff)
  from val have ok: "rods_ok ?n (rods gs)" by (rule validateGameState_rods_ok)
  from leg have ij: "?i < 3" "?j < 3" "?i \<noteq> ?j" and ne: "rods gs ! ?i \<noteq> []"
    and tgt: "rods gs ! ?j = [] \<or> last (rods gs ! ?i) < last (rods gs ! ?j)"
    by (auto simp: legal_def)
  have "rods_ok ?n (move_top (rods gs) ?i ?j)"
    using ok ij ne tgt by (rule rods_ok_move_top)
  with val show ?thesis
    by (simp add: validateGameState_iff mm)
qed

lemma replay_play:
  assumes "validateGameState gs"
    and "gameComplete gs \<longleftrightarrow> rods gs ! 2 = rev [1..numDisks (settings gs)]"
    and "play (numDisks (settings gs)) (rods gs) sol = Some rs'"
  shows "\<exists>final. replay clock k gs sol = Replayed final \<and> rods final = rs' \<and>
           moveCount final = moveCount gs + int (length sol) \<and>
           (gameComplete final \<longleftrightarrow> rs' ! 2 = rev [1..numDisks (settings gs)]) \<and>
           settings final = settings gs"
  using assms
proof (induction sol arbitrary: gs k)
  case Nil
  then show ?case by simp
next
  case (Cons m ms)
  let ?f = "JSInt (move_from m)" and ?t = "JSInt (move_to m)" and ?n = "numDisks (settings gs)"
  from Cons.prems(3) have nw: "rods gs ! 2 \<noteq> rev [1..?n]"
    and leg: "legal (rods gs) (move_from m) (move_to m)"
    and rest: "play ?n (move_top (rods gs) (nat (move_from m)) (nat (move_to m))) ms = Some rs'"
    by (simp_all split: if_splits)
  from nw Cons.prems(2) have nc: "\<not> gameComplete gs" by simp
  have v: "validateMove gs ?f ?t = Valid"
    using Cons.prems(1) nc leg by (simp add: validateMove_Valid_iff)
  obtain r gs1 where step: "makeMove (clock k) gs ?f ?t = (Success r, gs1)"
    using makeMove_Valid(1) [OF v, of "clock k"] by (cases "makeMove (clock k) gs ?f ?t") simp
  then have gs1: "snd (makeMove (clock k) gs ?f ?t) = gs1" by simp
  note mm = makeMove_Valid [OF v, of "clock k", unfolded gs1]
  have val1: "validateGameState gs1"
    using validateGameState_makeMove [OF v, of "clock k"] by (simp only: gs1)
  have "\<exists>final. replay clock (Suc k) gs1 ms = Replayed final \<and> rods final = rs' \<and>
           moveCount final = moveCount gs1 + int (length ms) \<and>
           (gameComplete final \<longleftrightarrow> rs' ! 2 = rev [1..numDisks (settings gs1)]) \<and>
           settings final = settings gs1"
  proof (rule Cons.IH)
    show "validateGameState gs1" by (rule val1)
    show "gameComplete gs1 \<longleftrightarrow> rods gs1 ! 2 = rev [1..numDisks (settings gs1)]"
      using mm(5) by (simp only: mm(6))
    show "play (numDisks (settings gs1)) (rods gs1) ms = Some rs'"
      using rest by (simp only: mm(2) mm(6) num.simps)
  qed
  then obtain final where fin: "replay clock (Suc k) gs1 ms = Replayed final"
    and a: "rods final = rs'" "moveCount final = moveCount gs1 + int (length ms)"
      "gameComplete final \<longleftrightarrow> rs' ! 2 = rev [1..numDisks (settings gs1)]"
      "settings final = settings gs1"
    by blast
  have "replay clock k gs (m # ms) = Replayed final"
    using fin by (simp add: step)
  moreover have "moveCount final = moveCount gs + int (length (m # ms))"
    using a(2) by (simp add: mm(4))
  ultimately show ?case
    using a(1,3,4) by (simp add: mm(6))
qed

lemma replay_reachable:
  "reachable n gs \<Longrightarrow> reachable n (final_state (replay clock k gs sol))"
proof (induction sol arbitrary: gs k)
  case Nil
  then show ?case by simp
next
  case (Cons m ms)
  let ?step = "makeMove (clock k) gs (JSInt (move_from m)) (JSInt (move_to m))"
  have r1: "reachable n (snd ?step)" using Cons.prems by (rule reachable.made_move)
  show ?case
  proof (cases "fst ?step")
    case (Success r)
    then have "replay clock k gs (m # ms) = replay clock (Suc k) (snd ?step) ms"
      by (cases ?step) simp
    with Cons.IH [OF r1] show ?thesis by simp
  next
    case (Failure e)
    then have "replay clock k gs (m # ms) = Stopped k (Failure e) (snd ?step)"
      by (cases ?step) simp
    with r1 show ?thesis by simp
  next
    case Exception
    then have "replay clock k gs (m # ms) = Stopped k Exception (snd ?step)"
      by (cases ?step) simp
    with r1 show ?thesis by simp
  next
    case Pushed_Undefined
    then have "replay clock k gs (m # ms) = Stopped k Pushed_Undefined (snd ?step)"
      by (cases ?step) simp
    with r1 show ?thesis by simp
  qed
qed

lemma fresh_solved:
  assumes n: "3 \<le> n" "n \<le> 8"
    and ev: "map_option (\<lambda>sol. (length sol, play n [rev [1..n], [], []] sol))
               (generateOptimalSolution (fresh_state now n)) = Some (L, Some [[], [], rev [1..n]])"
  shows "\<exists>sol final. generateOptimalSolution (fresh_state now n) = Some sol \<and> length sol = L \<and>
           replay clock 0 (fresh_state now n) sol = Replayed final \<and> gameComplete final \<and>
           moveCount final = int L \<and> rods final = [[], [], rev [1..n]]"
proof -
  from ev obtain sol where sol: "generateOptimalSolution (fresh_state now n) = Some sol"
    and len: "length sol = L" and p: "play n [rev [1..n], [], []] sol = Some [[], [], rev [1..n]]"
    by auto
  have val: "validateGameState (fresh_state now n)" using n by (rule validateGameState_fresh)
  have ne: "rev [1..n] \<noteq> []" using n by (simp add: upto.simps)
  have "\<exists>final. replay clock 0 (fresh_state now n) sol = Replayed final \<and>
           rods final = [[], [], rev [1..n]] \<and>
           moveCount final = moveCount (fresh_state now n) + int (length sol) \<and>
           (gameComplete final \<longleftrightarrow>
              [[], [], rev [1..n]] ! 2 = rev [1..numDisks (settings (fresh_state now n))]) \<and>
           settings final = settings (fresh_state now n)"
    using val ne p by (intro replay_play) (simp_all add: fresh_state_def)
  with sol len show ?thesis by (auto simp: fresh_state_def)
qed

lemma solve_fresh_3:
  "map_option (\<lambda>sol. (length sol, play 3 [rev [1..3], [], []] sol))
     (generateOptimalSolution (fresh_state now 3)) = Some (7, Some [[], [], rev [1..3]])"
  by code_simp

lemma solve_fresh_4:
  "map_option (\<lambda>sol. (length sol, play 4 [rev [1..4], [], []] sol))
     (generateOptimalSolution (fresh_state now 4)) = Some (15, Some [[], [], rev [1..4]])"
  by code_simp

lemma solve_fresh_5:
  "map_option (\<lambda>sol. (length sol, play 5 [rev [1..5], [], []] sol))
     (generateOptimalSolution (fresh_state now 5)) = Some (31, Some [[], [], rev [1..5]])"
  by code_simp

lemma solve_fresh_6:
  "map_option (\<lambda>sol. (length sol, play 6 [rev [1..6], [], []] sol))
     (generateOptimalSolution (fresh_state now 6)) = Some (63, Some [[], [], rev [1..6]])"
  by code_simp

lemma solve_fresh_7:
  "map_option (\<lambda>sol. (length sol, play 7 [rev [1..7], [], []] sol))
     (generateOptimalSolution (fresh_state now 7)) = Some (127, Some [[], [], rev [1..7]])"
  by code_simp

lemma solve_fresh_8:
  "map_option (\<lambda>sol. (length sol, play 8 [rev [1..8], [], []] sol))
     (generateOptimalSolution (fresh_state now 8)) = Some (255, Some [[], [], rev [1..8]])"
  by code_simp

lemma before_win_replay:
  "replay (\<lambda>k. int (Suc k)) 0 fresh3
     [\<lparr>move_from = 0, move_to = 2, move_disk = 1\<rparr>, \<lparr>move_from = 0, move_to = 1, move_disk = 2\<rparr>,
      \<lparr>move_from = 2, move_to = 1, move_disk = 1\<rparr>, \<lparr>move_from = 0, move_to = 2, move_disk = 3\<rparr>,
      \<lparr>move_from = 1, move_to = 0, move_disk = 1\<rparr>, \<lparr>move_from = 1, move_to = 2, move_disk = 2\<rparr>]
     = Replayed before_win"
  by code_simp

lemma reachable_fresh3: "reachable 3 fresh3"
  using createGameState_3 by (rule reachable.created)

lemma reachable_one_moved: "reachable 3 one_moved"
  using reachable.made_move [OF reachable_fresh3, of 1 "JSInt 0" "JSInt 1"]
  by (simp only: one_moved_eq)

lemma reachable_before_win: "reachable 3 before_win"
  using replay_reachable [OF reachable_fresh3, of "\<lambda>k. int (Suc k)" 0
      "[\<lparr>move_from = 0, move_to = 2, move_disk = 1\<rparr>, \<lparr>move_from = 0, move_to = 1, move_disk = 2\<rparr>,
        \<lparr>move_from = 2, move_to = 1, move_disk = 1\<rparr>, \<lparr>move_from = 0, move_to = 2, move_disk = 3\<rparr>,
        \<lparr>move_from = 1, move_to = 0, move_disk = 1\<rparr>, \<lparr>move_from = 1, move_to = 2, move_disk = 2\<rparr>]"]
  by (simp only: before_win_replay final_state.simps)

lemma reachable_won3: "reachable 3 won3"
  unfolding won3_def using reachable_before_win by (rule reachable.made_move)

lemma won3_rods: "rods won3 = [[], [], [3, 2, 1]] \<and> gameComplete won3 \<and> moveCount won3 = 7"
  by code_simp

lemma undoLastMove_keeps_flag: "gameComplete (snd (undoLastMove gs)) = gameComplete gs"
  by (simp add: undoLastMove_def Let_def split: option.splits)

lemma reachable_complete_history:
  "reachable n gs \<Longrightarrow> gameComplete gs \<Longrightarrow> moveHistory gs \<noteq> []"
proof (induction rule: reachable.induct)
  case (created now gs)
  then show ?case by (auto simp: createGameState_eq fresh_state_def split: if_splits)
next
  case (made_move gs now f t)
  show ?case
  proof (cases "validateMove gs f t")
    case Valid
    then show ?thesis using makeMove_Valid(3) [OF Valid, of now] by simp
  next
    case (Invalid e)
    then have "snd (makeMove now gs f t) = gs" by (simp add: makeMove_def)
    with made_move show ?thesis by simp
  qed
next
  case (undone gs)
  then have c: "gameComplete gs" by (simp add: undoLastMove_keeps_flag)
  then have "snd (undoLastMove gs) = gs" by (simp add: undoLastMove_def)
  with undone.IH [OF c] show ?case by simp
next
  case (selected gs r)
  then show ?case by (simp add: selectDisk_def Let_def split: if_splits)
next
  case (cleared gs)
  then show ?case by (simp add: clearSelection_def)
qed

section \<open>The claims\<close>

subsection \<open>Claim C1: the solver on a game in progress\<close>

text \<open>
  Claim C1 does not hold of the code. In the three-disk state with disk 1 on rod 1 and
  disks 2 and 3 on rod 0 (a fresh game after the move 0 to 1), the solver returns six
  moves. The first, 0 to 2, is accepted and moves disk 2. The second, 0 to 1, would put
  disk 3 on disk 1: \<^verbatim>\<open>validateMove\<close> rejects it with \<open>LARGER_ON_SMALLER\<close>, the replay stops
  there, and the game is not complete. (\<^verbatim>\<open>findDiskAtPosition\<close> returns the largest disk
  on the rod whatever size it is asked for, so the solver's \<^verbatim>\<open>diskPositions\<close> part from
  the rods at its first recorded move.)
\<close>

theorem solver_midgame_rejected:
  "validateGameState one_moved \<and>
   generateOptimalSolution one_moved = Some midgame_solution \<and>
   length midgame_solution = 6 \<and>
   fst (makeMove 0 one_moved (JSInt 0) (JSInt 2))
     = Success \<lparr>move_record = \<lparr>fromRod = 0, toRod = 2, diskId = 2, moveNumber = 2, timestamp = 0\<rparr>,
                diskMoved = 2, nowComplete = False\<rparr> \<and>
   validateMove (snd (makeMove 0 one_moved (JSInt 0) (JSInt 2))) (JSInt 0) (JSInt 1)
     = Invalid LARGER_ON_SMALLER \<and>
   stopped_at (replay (\<lambda>k. int k) 0 one_moved midgame_solution)
     = Some (1, Failure LARGER_ON_SMALLER) \<and>
   rods (final_state (replay (\<lambda>k. int k) 0 one_moved midgame_solution)) = [[3], [1], [2]] \<and>
   gameComplete (final_state (replay (\<lambda>k. int k) 0 one_moved midgame_solution)) = False"
  by code_simp

text \<open>
  In one line: replaying what the solver returns for that state stops at its second
  move (index 1) with \<open>LARGER_ON_SMALLER\<close>.
\<close>

theorem solver_midgame_rejected_witness:
  "(case generateOptimalSolution one_moved of
      None \<Rightarrow> None
    | Some sol \<Rightarrow> stopped_at (replay (\<lambda>k. int k) 0 one_moved sol))
     = Some (1, Failure LARGER_ON_SMALLER)"
  using solver_midgame_rejected by simp

subsection \<open>Claim C2: undo after a move\<close>

text \<open>
  Claim C2, amended. Whenever \<^verbatim>\<open>makeMove(state, from, to)\<close> succeeds: if it does not
  complete the game, an immediate \<^verbatim>\<open>undoLastMove\<close> succeeds and restores the rods,
  \<^verbatim>\<open>moveCount\<close> and the move history (so also its length) to their values before the
  move, the completion flag and the settings being as before too; if it completes the
  game, an immediate \<^verbatim>\<open>undoLastMove\<close> is refused with \<open>CANNOT_UNDO_COMPLETE_GAME\<close> and
  leaves the state as the move left it.
\<close>

theorem undo_inverts_makeMove:
  assumes "makeMove now gs f t = (Success r, gs')"
  shows "(\<not> gameComplete gs' \<longrightarrow>
            (\<exists>u gs''. undoLastMove gs' = (Success u, gs'') \<and>
               rods gs'' = rods gs \<and> moveCount gs'' = moveCount gs \<and>
               moveHistory gs'' = moveHistory gs \<and>
               length (moveHistory gs'') = length (moveHistory gs) \<and>
               gameComplete gs'' = gameComplete gs \<and> settings gs'' = settings gs)) \<and>
         (gameComplete gs' \<longrightarrow>
            undoLastMove gs' = (Failure CANNOT_UNDO_COMPLETE_GAME, gs'))"
proof -
  let ?i = "nat (num f)" and ?j = "nat (num t)"
  from assms have "is_Success (fst (makeMove now gs f t))" by simp
  then have v: "validateMove gs f t = Valid" by (simp only: makeMove_Success_iff)
  from assms have gs': "gs' = snd (makeMove now gs f t)" by simp
  note mm = makeMove_Valid [OF v, of now, folded gs']
  from v have val: "validateGameState gs" and nc: "\<not> gameComplete gs"
    and leg: "legal (rods gs) (num f) (num t)"
    by (simp_all add: validateMove_Valid_iff)
  from val have len: "length (rods gs) = 3"
    by (auto simp: validateGameState_def split: if_splits)
  from leg have ij: "?i < 3" "?j < 3" "?i \<noteq> ?j" and ne: "rods gs ! ?i \<noteq> []"
    and rng: "0 \<le> num f" "0 \<le> num t"
    by (auto simp: legal_def)
  note mt = move_top_rods [OF len ij ne]
  have inv: "move_top (rods gs') ?j ?i = rods gs"
    using move_top_inverse [OF len ij ne] by (simp add: mm(2))
  have won: "undoLastMove gs' = (Failure CANNOT_UNDO_COMPLETE_GAME, gs')" if "gameComplete gs'"
    using that by (simp add: undoLastMove_def mm(3))
  have "undoLastMove gs' =
    (Success \<lparr>undoneMove = last (moveHistory gs'),
              diskReturned = last (rods gs' ! nat (toRod (last (moveHistory gs'))))\<rparr>,
     gs'\<lparr>moveHistory := butlast (moveHistory gs'),
        rods := move_top (rods gs') (nat (toRod (last (moveHistory gs'))))
                  (nat (fromRod (last (moveHistory gs')))),
        moveCount := moveCount gs' - 1,
        metadata := (metadata gs')
          \<lparr>lastMoveTime := (if butlast (moveHistory gs') \<noteq> []
                             then Some (timestamp (last (butlast (moveHistory gs'))))
                             else None)\<rparr>,
        selectedDisk := None,
        selectedRod := None\<rparr>)"
    if "\<not> gameComplete gs'"
    using that ij rng mt by (intro undoLastMove_ok) (simp_all add: mm)
  then have "\<exists>u gs''. undoLastMove gs' = (Success u, gs'') \<and>
               rods gs'' = rods gs \<and> moveCount gs'' = moveCount gs \<and>
               moveHistory gs'' = moveHistory gs \<and>
               length (moveHistory gs'') = length (moveHistory gs) \<and>
               gameComplete gs'' = gameComplete gs \<and> settings gs'' = settings gs"
    if "\<not> gameComplete gs'"
    using that inv nc by (simp add: mm)
  with won show ?thesis by blast
qed

text \<open>
  Both cases: the first move of a fresh game, undone; and the seventh move of a
  three-disk game, which completes it and cannot be undone.
\<close>

theorem undo_inverts_makeMove_witness:
  "makeMove 1 fresh3 (JSInt 0) (JSInt 1)
     = (Success \<lparr>move_record = \<lparr>fromRod = 0, toRod = 1, diskId = 1, moveNumber = 1, timestamp = 1\<rparr>,
                 diskMoved = 1, nowComplete = False\<rparr>, one_moved) \<and>
   \<not> gameComplete one_moved \<and>
   (\<exists>u gs''. undoLastMove one_moved = (Success u, gs'') \<and>
           rods gs'' = rods fresh3 \<and> moveCount gs'' = moveCount fresh3 \<and>
           moveHistory gs'' = moveHistory fresh3 \<and>
           length (moveHistory gs'') = length (moveHistory fresh3) \<and>
           gameComplete gs'' = gameComplete fresh3 \<and> settings gs'' = settings fresh3) \<and>
   is_Success (fst (makeMove 7 before_win (JSInt 0) (JSInt 2))) \<and>
   gameComplete (snd (makeMove 7 before_win (JSInt 0) (JSInt 2))) \<and>
   undoLastMove (snd (makeMove 7 before_win (JSInt 0) (JSInt 2)))
     = (Failure CANNOT_UNDO_COMPLETE_GAME, snd (makeMove 7 before_win (JSInt 0) (JSInt 2)))"
proof -
  have a: "makeMove 1 fresh3 (JSInt 0) (JSInt 1)
     = (Success \<lparr>move_record = \<lparr>fromRod = 0, toRod = 1, diskId = 1, moveNumber = 1, timestamp = 1\<rparr>,
                 diskMoved = 1, nowComplete = False\<rparr>, one_moved)"
    by code_simp
  have b: "\<not> gameComplete one_moved" by (simp add: one_moved_def)
  have c: "is_Success (fst (makeMove 7 before_win (JSInt 0) (JSInt 2)))"
    and d: "gameComplete (snd (makeMove 7 before_win (JSInt 0) (JSInt 2)))"
    by code_simp+
  from c obtain r where e: "makeMove 7 before_win (JSInt 0) (JSInt 2)
      = (Success r, snd (makeMove 7 before_win (JSInt 0) (JSInt 2)))"
    by (cases "makeMove 7 before_win (JSInt 0) (JSInt 2)"; cases "fst (makeMove 7 before_win (JSInt 0) (JSInt 2))")
      simp_all
  from undo_inverts_makeMove [OF a] undo_inverts_makeMove [OF e] a b c d
  show ?thesis by simp
qed

text \<open>
  The claim as stated fails for the move that completes the game: from the state reached
  by six moves of a fresh three-disk game, the seventh move succeeds and solves the
  puzzle, and the undo that follows is refused with \<open>CANNOT_UNDO_COMPLETE_GAME\<close>.
\<close>

theorem undo_after_win_counterexample:
  "replay (\<lambda>k. int (Suc k)) 0 fresh3
     [\<lparr>move_from = 0, move_to = 2, move_disk = 1\<rparr>, \<lparr>move_from = 0, move_to = 1, move_disk = 2\<rparr>,
      \<lparr>move_from = 2, move_to = 1, move_disk = 1\<rparr>, \<lparr>move_from = 0, move_to = 2, move_disk = 3\<rparr>,
      \<lparr>move_from = 1, move_to = 0, move_disk = 1\<rparr>, \<lparr>move_from = 1, move_to = 2, move_disk = 2\<rparr>]
     = Replayed before_win \<and>
   is_Success (fst (makeMove 7 before_win (JSInt 0) (JSInt 2))) \<and>
   rods (snd (makeMove 7 before_win (JSInt 0) (JSInt 2))) = [[], [], [3, 2, 1]] \<and>
   fst (undoLastMove (snd (makeMove 7 before_win (JSInt 0) (JSInt 2))))
     = Failure CANNOT_UNDO_COMPLETE_GAME"
  by code_simp

subsection \<open>Claim C3: the solver on a fresh game\<close>

text \<open>
  Claim C3. For every \<open>n\<close> in 3..8, \<^verbatim>\<open>generateOptimalSolution\<close> on the fresh state
  \<^verbatim>\<open>createGameState(n)\<close> returns a list of exactly \<open>2^n - 1\<close> moves; replaying it through
  \<^verbatim>\<open>makeMove\<close> succeeds at every step, whatever the clock shows, and ends with
  \<^verbatim>\<open>gameComplete\<close> true, \<^verbatim>\<open>moveCount\<close> equal to \<open>2^n - 1\<close> and all disks on rod 2.
\<close>

theorem solver_solves_fresh_game:
  assumes "3 \<le> n" and "n \<le> 8"
  shows "\<exists>gs sol final.
           createGameState now (JSInt n) = Inr gs \<and>
           generateOptimalSolution gs = Some sol \<and>
           int (length sol) = 2 ^ nat n - 1 \<and>
           replay clock 0 gs sol = Replayed final \<and>
           gameComplete final \<and>
           moveCount final = 2 ^ nat n - 1 \<and>
           rods final = [[], [], rev [1..n]]"
proof -
  from assms consider "n = 3" | "n = 4" | "n = 5" | "n = 6" | "n = 7" | "n = 8"
    by linarith
  then have "\<exists>L sol final. int L = 2 ^ nat n - 1 \<and>
           generateOptimalSolution (fresh_state now n) = Some sol \<and> length sol = L \<and>
           replay clock 0 (fresh_state now n) sol = Replayed final \<and> gameComplete final \<and>
           moveCount final = int L \<and> rods final = [[], [], rev [1..n]]"
  proof cases
    case 1
    with fresh_solved [OF _ _ solve_fresh_3, of now clock] show ?thesis by force
  next
    case 2
    with fresh_solved [OF _ _ solve_fresh_4, of now clock] show ?thesis by force
  next
    case 3
    with fresh_solved [OF _ _ solve_fresh_5, of now clock] show ?thesis by force
  next
    case 4
    with fresh_solved [OF _ _ solve_fresh_6, of now clock] show ?thesis by force
  next
    case 5
    with fresh_solved [OF _ _ solve_fresh_7, of now clock] show ?thesis by force
  next
    case 6
    with fresh_solved [OF _ _ solve_fresh_8, of now clock] show ?thesis by force
  qed
  then show ?thesis
    using assms by (auto simp: createGameState_eq)
qed

text \<open>
  Three disks: seven moves, all accepted, puzzle solved.
\<close>

theorem solver_solves_fresh_game_witness:
  "\<exists>gs sol final.
     createGameState 0 (JSInt 3) = Inr gs \<and> rods gs = [[3, 2, 1], [], []] \<and>
     generateOptimalSolution gs = Some sol \<and> length sol = 7 \<and>
     replay (\<lambda>k. int k) 0 gs sol = Replayed final \<and> gameComplete final \<and>
     moveCount final = 7 \<and> rods final = [[], [], [3, 2, 1]]"
  using solver_solves_fresh_game [of 3 0 "\<lambda>k. int k"]
  by (auto simp: createGameState_eq fresh_state_def upto.simps)

subsection \<open>Claim C4: the validator reports the first failing rule\<close>

text \<open>
  Claim C4. For every game state that passes \<^verbatim>\<open>validateGameState\<close> and any arguments,
  \<^verbatim>\<open>validateMove\<close> reports the reason of the first failing rule in the order: game
  complete; source not an integer in \<open>{0, 1, 2}\<close>; target not an integer in
  \<open>{0, 1, 2}\<close>; source equal to target; source rod empty; target rod non-empty with a
  top disk not larger than the moving disk; and accepts the move otherwise.
\<close>

theorem validateMove_precedence:
  "validateGameState gs \<Longrightarrow> validateMove gs f t = spec_validate gs f t"
  by (simp add: validateMove_def spec_validate_def spec_rules_def is_rod_iff Let_def not_le)

text \<open>
  On a fresh game: a non-integer source is reported before the out-of-range target, a
  move onto the same rod and a move from an empty rod get their own reasons, and a legal
  move is accepted.
\<close>

theorem validateMove_precedence_witness:
  "validateGameState fresh3 \<and>
   validateMove fresh3 JSOther (JSInt 7) = Invalid INVALID_SOURCE_ROD \<and>
   validateMove fresh3 (JSInt 1) (JSInt 1) = Invalid SAME_ROD \<and>
   validateMove fresh3 (JSInt 1) (JSInt 0) = Invalid EMPTY_SOURCE_ROD \<and>
   validateMove fresh3 (JSInt 0) (JSInt 2) = Valid"
  using validateMove_precedence [OF validateGameState_fresh3, of JSOther "JSInt 7"]
    validateMove_precedence [OF validateGameState_fresh3, of "JSInt 1" "JSInt 1"]
    validateMove_precedence [OF validateGameState_fresh3, of "JSInt 1" "JSInt 0"]
    validateMove_precedence [OF validateGameState_fresh3, of "JSInt 0" "JSInt 2"]
    validateGameState_fresh3
  by (simp add: spec_validate_def spec_rules_def is_rod_def fresh3_def)

subsection \<open>Claim C5: the rods of a reachable state\<close>

text \<open>
  Claim C5. In every state reachable from \<^verbatim>\<open>createGameState(n)\<close> (whence \<open>3 \<le> n \<le> 8\<close>)
  by any sequence of \<^verbatim>\<open>makeMove\<close>, \<^verbatim>\<open>undoLastMove\<close>, \<^verbatim>\<open>selectDisk\<close> and
  \<^verbatim>\<open>clearSelection\<close> calls there are three rods, each strictly decreasing from bottom
  to top, and the disks on them are exactly the ranks \<open>1..n\<close>, each once.
\<close>

theorem reachable_rods_invariant:
  assumes "reachable n gs"
  shows "3 \<le> n \<and> n \<le> 8 \<and> length (rods gs) = 3 \<and>
         (\<forall>r \<in> set (rods gs). sorted_wrt (>) r) \<and>
         distinct (concat (rods gs)) \<and> set (concat (rods gs)) = {1..n} \<and>
         int (length (concat (rods gs))) = n"
proof -
  from assms have inv: "state_inv n gs" by (rule reachable_state_inv)
  then have ok: "rods_ok n (rods gs)" and n: "3 \<le> n" "n \<le> 8"
    by (simp_all add: state_inv_def)
  from ok n have "int (length (concat (rods gs))) = n" by (intro rods_ok_length) simp_all
  with ok n show ?thesis
    by (simp add: rods_ok_def list_all_iff descending_iff_sorted_wrt)
qed

text \<open>
  The invariant in the state six moves into a three-disk game.
\<close>

theorem reachable_rods_invariant_witness:
  "reachable 3 before_win \<and> rods before_win = [[1], [], [3, 2]] \<and>
   sorted_wrt (>) [1::int] \<and> sorted_wrt (>) [3, 2::int] \<and>
   distinct (concat (rods before_win)) \<and> set (concat (rods before_win)) = {1..3} \<and>
   length (concat (rods before_win)) = 3"
  using reachable_rods_invariant [OF reachable_before_win] reachable_before_win
  by (simp add: before_win_def)

subsection \<open>Claim C6: the completion flag\<close>

text \<open>
  Claim C6. In every state reachable from \<^verbatim>\<open>createGameState(n)\<close>, \<^verbatim>\<open>gameComplete\<close> is what
  \<^verbatim>\<open>isGameWon\<close> returns, and it is true exactly when all \<open>n\<close> disks sit on rod 2 in
  descending order. (The reachable states here also allow \<^verbatim>\<open>selectDisk\<close> and
  \<^verbatim>\<open>clearSelection\<close> calls, which the claim does not need.)
\<close>

theorem gameComplete_iff_won:
  assumes "reachable n gs"
  shows "isGameWon gs = Some (gameComplete gs) \<and>
         (gameComplete gs \<longleftrightarrow> rods gs = [[], [], rev [1..n]])"
proof -
  from assms have inv: "state_inv n gs" by (rule reachable_state_inv)
  then have ok: "rods_ok n (rods gs)" and n: "3 \<le> n" "numDisks (settings gs) = n"
    and fl: "gameComplete gs \<longleftrightarrow> rods gs ! 2 = rev [1..n]"
    by (simp_all add: state_inv_def)
  from ok have len: "length (rods gs) = 3" by (simp add: rods_ok_def)
  have a: "isGameWon gs = Some (gameComplete gs)"
    using isGameWon_eq [OF len] n fl by simp
  from len obtain a b c where rs: "rods gs = [a, b, c]" by (rule length3E)
  have ab: "a = [] \<and> b = []" if "c = rev [1..n]"
  proof -
    from ok have d: "distinct (a @ b @ c)" and s: "set a \<union> set b \<union> set c = {1..n}"
      by (auto simp: rods_ok_def rs)
    from that have c: "set c = {1..n}" by simp
    from d s c show ?thesis by (rule full_rod_others_empty)
  qed
  have "rods gs ! 2 = rev [1..n] \<longleftrightarrow> rods gs = [[], [], rev [1..n]]"
  proof
    assume "rods gs ! 2 = rev [1..n]"
    then have c: "c = rev [1..n]" by (simp add: rs)
    with ab have "a = []" and "b = []" by simp_all
    with c show "rods gs = [[], [], rev [1..n]]" by (simp add: rs)
  next
    assume "rods gs = [[], [], rev [1..n]]"
    then show "rods gs ! 2 = rev [1..n]" by simp
  qed
  with fl a show ?thesis by simp
qed

text \<open>
  The flag in a completed game and in a game one move old.
\<close>

theorem gameComplete_iff_won_witness:
  "reachable 3 won3 \<and> isGameWon won3 = Some True \<and> gameComplete won3 \<and>
   rods won3 = [[], [], [3, 2, 1]] \<and>
   reachable 3 one_moved \<and> isGameWon one_moved = Some False \<and> \<not> gameComplete one_moved"
  using gameComplete_iff_won [OF reachable_won3] gameComplete_iff_won [OF reachable_one_moved]
    reachable_won3 reachable_one_moved won3_rods
  by (simp add: one_moved_def)

subsection \<open>Claim C7: the minimum number of moves\<close>

text \<open>
  Claim C7. For every \<open>n\<close> in the supported range 3..8, \<^verbatim>\<open>calculateMinimumMoves(n)\<close>
  returns exactly \<open>2^n - 1\<close>, and \<^verbatim>\<open>createGameState(n)\<close> returns a state whose
  \<^verbatim>\<open>optimalMoves\<close> is the same integer.
\<close>

theorem calculateMinimumMoves_formula:
  "3 \<le> n \<Longrightarrow> n \<le> 8 \<Longrightarrow>
   calculateMinimumMoves n = 2 ^ nat n - 1 \<and>
   (\<exists>gs. createGameState now (JSInt n) = Inr gs \<and> optimalMoves (metadata gs) = 2 ^ nat n - 1)"
  by (simp add: calculateMinimumMoves_def createGameState_def Math_pow_def)

text \<open>
  The formula at both ends of the range: 7 moves for three disks, 255 for eight.
\<close>

theorem calculateMinimumMoves_formula_witness:
  "calculateMinimumMoves 3 = 7 \<and> calculateMinimumMoves 8 = 255 \<and>
   (\<exists>gs. createGameState 0 (JSInt 8) = Inr gs \<and> optimalMoves (metadata gs) = 255)"
  using calculateMinimumMoves_formula [of 3 0] calculateMinimumMoves_formula [of 8 0]
  by simp

subsection \<open>Claim C8: a rejected command changes nothing\<close>

text \<open>
  Claim C8. Whenever \<^verbatim>\<open>makeMove\<close>, \<^verbatim>\<open>undoLastMove\<close>, \<^verbatim>\<open>selectDisk\<close> or
  \<^verbatim>\<open>moveSelectedDisk\<close> returns a failure result, the state after the call is the state
  before it, in every field.
\<close>

theorem failure_leaves_state:
  "(is_Failure (fst (makeMove now gs f t)) \<longrightarrow> snd (makeMove now gs f t) = gs) \<and>
   (is_Failure (fst (undoLastMove gs)) \<longrightarrow> snd (undoLastMove gs) = gs) \<and>
   (is_Failure (fst (selectDisk gs r)) \<longrightarrow> snd (selectDisk gs r) = gs) \<and>
   (is_Failure (fst (moveSelectedDisk now gs t)) \<longrightarrow> snd (moveSelectedDisk now gs t) = gs)"
proof -
  have mm: "is_Failure (fst (makeMove now' gs f' t')) \<longrightarrow> snd (makeMove now' gs f' t') = gs"
    for now' f' t'
  proof (cases "validateMove gs f' t'")
    case Valid
    then show ?thesis using makeMove_Valid(1) [OF Valid, of now'] by simp
  next
    case (Invalid e)
    then show ?thesis by (simp add: makeMove_def)
  qed
  have un: "is_Failure (fst (undoLastMove gs)) \<longrightarrow> snd (undoLastMove gs) = gs"
    by (simp add: undoLastMove_def Let_def)
  have sel: "is_Failure (fst (selectDisk gs r)) \<longrightarrow> snd (selectDisk gs r) = gs"
    by (simp add: selectDisk_def Let_def)
  have ms: "is_Failure (fst (moveSelectedDisk now gs t)) \<longrightarrow> snd (moveSelectedDisk now gs t) = gs"
    using mm by (simp add: moveSelectedDisk_def)
  from mm un sel ms show ?thesis by blast
qed

text \<open>
  Four rejected commands on a fresh game, each with its reason.
\<close>

theorem failure_leaves_state_witness:
  "fst (makeMove 1 fresh3 (JSInt 1) (JSInt 2)) = Failure EMPTY_SOURCE_ROD \<and>
   snd (makeMove 1 fresh3 (JSInt 1) (JSInt 2)) = fresh3 \<and>
   fst (undoLastMove fresh3) = Failure NO_MOVES_TO_UNDO \<and> snd (undoLastMove fresh3) = fresh3 \<and>
   fst (selectDisk fresh3 (JSInt 1)) = Failure EMPTY_ROD_SELECTION \<and>
   snd (selectDisk fresh3 (JSInt 1)) = fresh3 \<and>
   fst (moveSelectedDisk 1 fresh3 (JSInt 2)) = Failure NO_DISK_SELECTED \<and>
   snd (moveSelectedDisk 1 fresh3 (JSInt 2)) = fresh3"
proof -
  have v: "validateMove fresh3 (JSInt 1) (JSInt 2) = Invalid EMPTY_SOURCE_ROD"
    using validateGameState_fresh3 by (simp add: validateMove_def) (simp add: fresh3_def)
  have a: "fst (makeMove 1 fresh3 (JSInt 1) (JSInt 2)) = Failure EMPTY_SOURCE_ROD"
    by (simp add: makeMove_def v)
  have b: "fst (undoLastMove fresh3) = Failure NO_MOVES_TO_UNDO"
    by (simp add: undoLastMove_def fresh3_def)
  have c: "fst (selectDisk fresh3 (JSInt 1)) = Failure EMPTY_ROD_SELECTION"
    by (simp add: selectDisk_def fresh3_def)
  have d: "fst (moveSelectedDisk 1 fresh3 (JSInt 2)) = Failure NO_DISK_SELECTED"
    by (simp add: moveSelectedDisk_def fresh3_def)
  show ?thesis
    using failure_leaves_state [of 1 fresh3 "JSInt 1" "JSInt 2" "JSInt 1"] a b c d
    by simp
qed

subsection \<open>Claim C9: the cases of undo\<close>

text \<open>
  Claim C9. In every state of a game (every state reachable from \<^verbatim>\<open>createGameState\<close>
  through the engine's calls), \<^verbatim>\<open>undoLastMove\<close> fails with \<open>NO_MOVES_TO_UNDO\<close> when the history is
  empty, fails with \<open>CANNOT_UNDO_COMPLETE_GAME\<close> when \<^verbatim>\<open>gameComplete\<close> is true, and
  otherwise succeeds: it pops the last \<^verbatim>\<open>Move\<close> record, takes that record's disk off its
  target rod and puts it on top of its source rod (the third rod is untouched),
  decrements \<^verbatim>\<open>moveCount\<close> by one and clears the selection.
\<close>

theorem undoLastMove_reachable:
  assumes "reachable n gs"
  shows
   "(moveHistory gs = [] \<longrightarrow> undoLastMove gs = (Failure NO_MOVES_TO_UNDO, gs)) \<and>
    (gameComplete gs \<longrightarrow> undoLastMove gs = (Failure CANNOT_UNDO_COMPLETE_GAME, gs)) \<and>
    (moveHistory gs \<noteq> [] \<and> \<not> gameComplete gs \<longrightarrow>
      (let m = last (moveHistory gs); i = nat (fromRod m); j = nat (toRod m); d = diskId m in
       \<exists>u gs'. undoLastMove gs = (Success u, gs') \<and>
         undoneMove u = m \<and> diskReturned u = d \<and>
         moveHistory gs' = butlast (moveHistory gs) \<and>
         rods gs ! j = rods gs' ! j @ [d] \<and>
         rods gs' ! i = rods gs ! i @ [d] \<and>
         (\<forall>k<3. k \<noteq> i \<and> k \<noteq> j \<longrightarrow> rods gs' ! k = rods gs ! k) \<and>
         length (rods gs') = 3 \<and>
         moveCount gs' = moveCount gs - 1 \<and>
         selectedDisk gs' = None \<and> selectedRod gs' = None))"
proof -
  note cases = undoLastMove_cases [of gs]
  have 1: "moveHistory gs = [] \<longrightarrow> undoLastMove gs = (Failure NO_MOVES_TO_UNDO, gs)"
    using cases by blast
  have 2: "gameComplete gs \<longrightarrow> undoLastMove gs = (Failure CANNOT_UNDO_COMPLETE_GAME, gs)"
  proof
    assume c: "gameComplete gs"
    with assms have "moveHistory gs \<noteq> []" by (rule reachable_complete_history)
    with c cases show "undoLastMove gs = (Failure CANNOT_UNDO_COMPLETE_GAME, gs)" by blast
  qed
  have 3: "moveHistory gs \<noteq> [] \<and> \<not> gameComplete gs \<longrightarrow>
      (let m = last (moveHistory gs); i = nat (fromRod m); j = nat (toRod m); d = diskId m in
       \<exists>u gs'. undoLastMove gs = (Success u, gs') \<and>
         undoneMove u = m \<and> diskReturned u = d \<and>
         moveHistory gs' = butlast (moveHistory gs) \<and>
         rods gs ! j = rods gs' ! j @ [d] \<and>
         rods gs' ! i = rods gs ! i @ [d] \<and>
         (\<forall>k<3. k \<noteq> i \<and> k \<noteq> j \<longrightarrow> rods gs' ! k = rods gs ! k) \<and>
         length (rods gs') = 3 \<and>
         moveCount gs' = moveCount gs - 1 \<and>
         selectedDisk gs' = None \<and> selectedRod gs' = None)"
    (is "_ \<longrightarrow> ?X")
  proof
    assume a: "moveHistory gs \<noteq> [] \<and> \<not> gameComplete gs"
    then have rt: "record_on_top gs" using assms by (intro reachable_record_on_top) simp_all
    from cases
    have "moveHistory gs \<noteq> [] \<and> \<not> gameComplete gs \<and> record_on_top gs \<longrightarrow> ?X"
      by (rule conjunct2 [THEN conjunct2])
    then show ?X
    proof (rule mp)
      show "moveHistory gs \<noteq> [] \<and> \<not> gameComplete gs \<and> record_on_top gs"
        using a rt by simp
    qed
  qed
  from 1 2 3 show ?thesis by (intro conjI)
qed

text \<open>
  The three cases: a fresh game, a completed game, and a game one move old.
\<close>

theorem undoLastMove_reachable_witness:
  "reachable 3 fresh3 \<and> undoLastMove fresh3 = (Failure NO_MOVES_TO_UNDO, fresh3) \<and>
   reachable 3 won3 \<and> gameComplete won3 \<and>
   undoLastMove won3 = (Failure CANNOT_UNDO_COMPLETE_GAME, won3) \<and>
   reachable 3 one_moved \<and> moveHistory one_moved \<noteq> [] \<and> \<not> gameComplete one_moved \<and>
   (\<exists>u gs'. undoLastMove one_moved = (Success u, gs') \<and> diskReturned u = 1 \<and>
      moveHistory gs' = [] \<and> rods gs' = [[3, 2, 1], [], []] \<and> moveCount gs' = 0 \<and>
      selectedDisk gs' = None \<and> selectedRod gs' = None)"
proof -
  have a: "moveHistory fresh3 = []" by (simp add: fresh3_def)
  have b: "moveHistory one_moved \<noteq> [] \<and> \<not> gameComplete one_moved"
    by (simp add: one_moved_def)
  have c: "undoLastMove one_moved = (Success u, gs') \<Longrightarrow> rods gs' = [[3, 2, 1], [], []]" for u gs'
    by (auto simp: undoLastMove_def one_moved_def Let_def)
  have d: "gameComplete won3" using won3_rods by simp
  from undoLastMove_reachable [OF reachable_fresh3] a
  have 1: "undoLastMove fresh3 = (Failure NO_MOVES_TO_UNDO, fresh3)" by blast
  from undoLastMove_reachable [OF reachable_won3] d
  have 2: "undoLastMove won3 = (Failure CANNOT_UNDO_COMPLETE_GAME, won3)" by blast
  from undoLastMove_reachable [OF reachable_one_moved] b
  have "let m = last (moveHistory one_moved); i = nat (fromRod m); j = nat (toRod m);
           d = diskId m in
       \<exists>u gs'. undoLastMove one_moved = (Success u, gs') \<and>
         undoneMove u = m \<and> diskReturned u = d \<and>
         moveHistory gs' = butlast (moveHistory one_moved) \<and>
         rods one_moved ! j = rods gs' ! j @ [d] \<and>
         rods gs' ! i = rods one_moved ! i @ [d] \<and>
         (\<forall>k<3. k \<noteq> i \<and> k \<noteq> j \<longrightarrow> rods gs' ! k = rods one_moved ! k) \<and>
         length (rods gs') = 3 \<and>
         moveCount gs' = moveCount one_moved - 1 \<and>
         selectedDisk gs' = None \<and> selectedRod gs' = None"
    by blast
  then have 3: "\<exists>u gs'. undoLastMove one_moved = (Success u, gs') \<and> diskReturned u = 1 \<and>
      moveHistory gs' = [] \<and> rods gs' = [[3, 2, 1], [], []] \<and> moveCount gs' = 0 \<and>
      selectedDisk gs' = None \<and> selectedRod gs' = None"
    using c by (auto simp: Let_def one_moved_def)
  from 1 2 3 b d reachable_fresh3 reachable_won3 reachable_one_moved show ?thesis by simp
qed

subsection \<open>Claim C10: creating a game\<close>

text \<open>
  Claim C10 does not hold of the code at the argument \<^verbatim>\<open>undefined\<close>: it is not an
  integer, and the call returns the fresh three-disk game instead of throwing (the
  default value of the parameter takes the place of an explicit \<^verbatim>\<open>undefined\<close> too). For
  every other argument the code does what the claim says (\<open>createGameState_cases\<close>).
\<close>

theorem createGameState_undefined_returns:
  "\<not> isInteger JSUndefined \<and> createGameState 0 JSUndefined = Inr fresh3"
  by (simp add: createGameState_def fresh3_def Math_pow_def initialDisks_3)

text \<open>
  What the call returns: three disks on rod 0.
\<close>

theorem createGameState_undefined_returns_witness:
  "\<exists>gs. createGameState 0 JSUndefined = Inr gs \<and> rods gs = [[3, 2, 1], [], []] \<and>
     numDisks (settings gs) = 3"
  using createGameState_undefined_returns by (simp add: fresh3_def)

end
